theory Spec2Isabelle
  imports Complex_Main "HOL-Library.Word"
begin

section \<open>Numbers, faults and vectors\<close>

text \<open>
  The sources compute in IEEE single precision (the CUDA kernel of \<^verbatim>\<open>mcextreme.cu\<close>) and
  double precision (the Mie routines). The embedding reads every floating-point value as
  the real (or complex) number it stands for and every operation as the exact one, so that
  rounding is outside the model. An operation that has no real result (a quotient by zero,
  the logarithm of zero, the arc cosine of a value outside \<open>[-1, 1]\<close>: IEEE gives an
  infinity or a NaN there and the C code carries on with it) ends the model's run with the
  fault \<open>NotFinite\<close>; an array access outside the allocated length ends it with
  \<open>OutOfBounds\<close>. Every theorem about this model is about the runs on which no fault
  occurred unless it says otherwise.

  Two parts of the kernel are modelled a second time, where a property depends on what
  this reading leaves out. The scattering rotation is given again in single precision,
  with the rounding of every operation, the infinities and the NaN: there the arc cosine of
  a value above \<open>1\<close> is a NaN and the rotation goes on with it. And the launch of the kernel
  is given as the interleaving of threads that share the fluence array, where the kernel
  function by itself is one thread on an array no other thread writes.
\<close>

datatype fault = NotFinite | OutOfBounds

datatype float2 = float2 (f2x: real) (f2y: real)

datatype float3 = float3 (f3x: real) (f3y: real) (f3z: real)

datatype float4 = float4 (f4x: real) (f4y: real) (f4z: real) (f4w: real)

definition GPUDIV :: "real \<Rightarrow> real \<Rightarrow> fault + real" where
  "GPUDIV a b = (if b = 0 then Inl NotFinite else Inr (a / b))"

definition logf :: "real \<Rightarrow> fault + real" where
  "logf u = (if 0 < u then Inr (ln u) else Inl NotFinite)"

definition acosf :: "real \<Rightarrow> fault + real" where
  "acosf v = (if - 1 \<le> v \<and> v \<le> 1 then Inr (arccos v) else Inl NotFinite)"

section \<open>The transport kernel of mcextreme.cu\<close>

definition DIMX :: int where "DIMX = 128"

definition DIMY :: int where "DIMY = 128"

definition DIMZ :: int where "DIMZ = 128"

definition DIMYZ :: int where "DIMYZ = DIMY * DIMZ"

definition DIMXYZ :: int where "DIMXYZ = DIMX * DIMY * DIMZ"

definition MAX_MT_RAND :: real where "MAX_MT_RAND = 4294967296"

definition TWO_PI :: real where "TWO_PI = 628318530717959 / 100000000000000"

definition MINUS_SAME_VOXEL :: real where "MINUS_SAME_VOXEL = - 9999"

text \<open>
  The arguments of \<^verbatim>\<open>mcx_main_loop\<close>. \<open>gproperty\<close> is the table in constant memory: it
  has \<^verbatim>\<open>MAX_PROP = 256\<close> entries and is indexed by an \<^verbatim>\<open>uchar\<close>, so every index is in
  range and the table is a total function on the material ids. \<open>vsize\<close> is never read by
  the kernel and is left out.
\<close>

record kernel_args =
  totalmove :: int
  media :: "nat list"
  minstep :: real
  lmax :: real
  gg :: real
  gg2 :: real
  ggx2 :: real
  p0 :: float4
  c0 :: float4
  maxidx :: float3
  gproperty :: "nat \<Rightarrow> float2"

text \<open>
  The state of one thread: its photon (\<open>npos = (x, y, z, weight)\<close>,
  \<open>ndir = (dx, dy, dz, scatter count)\<close>, \<open>nlen = (residual, pathlength, relaunch count)\<close>),
  the voxel index, the last random draw, the fluence array \<open>field\<close> it adds to, and the
  random number generator. \<^verbatim>\<open>mt_rand_s.cu\<close> is not among the sources: the generator is the
  sequence \<open>mt\<close> of 32-bit draws it will deliver and the position \<open>mti\<close> in it.
\<close>

record photon =
  npos :: float4
  ndir :: float4
  nlen :: float3
  idx1d :: int
  ran :: "32 word"
  field :: "real list"
  mt :: "nat \<Rightarrow> 32 word"
  mti :: nat

text \<open>The conversion \<^verbatim>\<open>(float)ran\<close> of a draw.\<close>

definition float_of_uint :: "32 word \<Rightarrow> real" where
  "float_of_uint r = real (unat r)"

definition mt19937s :: "photon \<Rightarrow> photon" where
  "mt19937s s = s\<lparr>ran := mt s (mti s), mti := Suc (mti s)\<rparr>"

definition voxel_index :: "float4 \<Rightarrow> int" where
  "voxel_index p = \<lfloor>f4x p\<rfloor> * DIMYZ + \<lfloor>f4y p\<rfloor> * DIMZ + \<lfloor>f4z p\<rfloor>"

text \<open>Lines 114 to 116: the cosine of the Henyey-Greenstein polar angle, from one draw.\<close>

definition hg_costheta :: "real \<Rightarrow> real \<Rightarrow> real \<Rightarrow> 32 word \<Rightarrow> fault + real" where
  "hg_costheta g g2 gx2 r =
     (let den = 1 - g + gx2 * float_of_uint r / MAX_MT_RAND in
      if den = 0 then Inl NotFinite
      else
        let foo = (1 - g2) / den;
            foo = foo * foo
        in GPUDIV (1 + g2 - foo) gx2)"

text \<open>
  Lines 124 to 138: the new direction, from the old one and the sines and cosines of the
  sampled angles. \<^verbatim>\<open>rsqrtf(tmp0)\<close> is taken where \<open>-1 < dz < 1\<close>, so \<open>tmp0\<close> is positive.
\<close>

definition scatter_dir :: "float4 \<Rightarrow> real \<Rightarrow> real \<Rightarrow> real \<Rightarrow> real \<Rightarrow> float4" where
  "scatter_dir nd sphi cphi stheta ctheta =
     (let ndir0 = nd in
      if f4z nd > - 1 \<and> f4z nd < 1 then
        let tmp0 = 1 - f4z nd * f4z nd;
            tmp1 = 1 / sqrt tmp0;
            tmp2 = stheta * tmp1
        in if stheta > 1 / 10 ^ 20 then
             float4
               (tmp2 * (f4x ndir0 * f4z ndir0 * cphi - f4y ndir0 * sphi) + f4x ndir0 * ctheta)
               (tmp2 * (f4y ndir0 * f4z ndir0 * cphi + f4x ndir0 * sphi) + f4y ndir0 * ctheta)
               (- tmp2 * tmp0 * cphi + f4z ndir0 * ctheta)
               (f4w ndir0)
           else nd
      else float4 (stheta * cphi) (stheta * sphi) ctheta (f4w ndir0))"

text \<open>Lines 94 to 141: the scatter decision of a micro-step.\<close>

definition scatter_phase :: "kernel_args \<Rightarrow> photon \<Rightarrow> fault + photon" where
  "scatter_phase a s =
     (if f3x (nlen s) \<le> 0 then
        let s1 = mt19937s s in
        case logf (float_of_uint (ran s1) / MAX_MT_RAND) of
          Inl e \<Rightarrow> Inl e
        | Inr l \<Rightarrow>
            let s2 = s1\<lparr>nlen := float3 (- l) (f3y (nlen s1)) (f3z (nlen s1))\<rparr> in
            if f4w (npos s2) < 1 then
              let s3 = mt19937s s2;
                  phi = TWO_PI * float_of_uint (ran s3) / MAX_MT_RAND;
                  sphi = sin phi;
                  cphi = cos phi;
                  s4 = mt19937s s3
              in case hg_costheta (gg a) (gg2 a) (ggx2 a) (ran s4) of
                   Inl e \<Rightarrow> Inl e
                 | Inr foo \<Rightarrow>
                     (case acosf foo of
                        Inl e \<Rightarrow> Inl e
                      | Inr theta \<Rightarrow>
                          let stheta = sin theta;
                              ctheta = foo;
                              nd = scatter_dir (ndir s4) sphi cphi stheta ctheta
                          in Inr (s4\<lparr>ndir := float4 (f4x nd) (f4y nd) (f4z nd) (f4w nd + 1)\<rparr>))
            else Inr s2
      else Inr s)"

text \<open>Lines 142 to 156: the voxel step.\<close>

definition voxel_phase :: "kernel_args \<Rightarrow> photon \<Rightarrow> fault + photon" where
  "voxel_phase a s =
     (if idx1d s < 0 \<or> int (length (media a)) \<le> idx1d s then Inl OutOfBounds
      else
        let mediaid = media a ! nat (idx1d s);
            prop = gproperty a mediaid;
            len = minstep a * f2y prop
        in if len > f3x (nlen s) then
             case GPUDIV (f3x (nlen s)) (f2y prop) of
               Inl e \<Rightarrow> Inl e
             | Inr step \<Rightarrow>
                 Inr (s\<lparr>npos := float4 (f4x (npos s) + f4x (ndir s) * step)
                                      (f4y (npos s) + f4y (ndir s) * step)
                                      (f4z (npos s) + f4z (ndir s) * step)
                                      (f4w (npos s) * exp (- f2x prop * step)),
                        nlen := float3 MINUS_SAME_VOXEL (f3y (nlen s) + step) (f3z (nlen s))\<rparr>)
           else
             let np = float4 (f4x (npos s) + f4x (ndir s))
                             (f4y (npos s) + f4y (ndir s))
                             (f4z (npos s) + f4z (ndir s))
                             (f4w (npos s) * exp (- f2x prop * minstep a))
             in Inr (s\<lparr>npos := np,
                       nlen := float3 (f3x (nlen s) - len) (f3y (nlen s) + minstep a) (f3z (nlen s)),
                       idx1d := voxel_index np\<rparr>))"

text \<open>Line 157: the test that sends the photon back to the source.\<close>

definition exits :: "kernel_args \<Rightarrow> photon \<Rightarrow> bool" where
  "exits a s \<longleftrightarrow>
     f3x (nlen s) > lmax a \<or> f4x (npos s) < 0 \<or> f4y (npos s) < 0 \<or> f4z (npos s) < 0 \<or>
     f4x (npos s) > f3x (maxidx a) \<or> f4y (npos s) > f3y (maxidx a) \<or>
     f4z (npos s) > f3z (maxidx a)"

text \<open>Lines 157 to 165: relaunch or deposit.\<close>

definition boundary_phase :: "kernel_args \<Rightarrow> int \<Rightarrow> photon \<Rightarrow> fault + photon" where
  "boundary_phase a idxorig s =
     (if exits a s then
        Inr (s\<lparr>npos := p0 a, ndir := c0 a,
               nlen := float3 0 0 (f3z (nlen s) + 1), idx1d := idxorig\<rparr>)
      else if idx1d s < 0 \<or> int (length (field s)) \<le> idx1d s then Inl OutOfBounds
      else
        Inr (s\<lparr>field := (field s)[nat (idx1d s) :=
               field s ! nat (idx1d s) + (if f3x (nlen s) > 0 then f4w (npos s) else 0)]\<rparr>))"

text \<open>Lines 94 to 156: the scatter decision, then the voxel step.\<close>

definition flight_phase :: "kernel_args \<Rightarrow> photon \<Rightarrow> fault + photon" where
  "flight_phase a s =
     (case scatter_phase a s of Inl e \<Rightarrow> Inl e | Inr s1 \<Rightarrow> voxel_phase a s1)"

text \<open>One turn of the loop of lines 93 to 166.\<close>

definition micro_step :: "kernel_args \<Rightarrow> int \<Rightarrow> photon \<Rightarrow> fault + photon" where
  "micro_step a idxorig s =
     (case flight_phase a s of Inl e \<Rightarrow> Inl e | Inr m \<Rightarrow> boundary_phase a idxorig m)"

fun micro_steps :: "kernel_args \<Rightarrow> int \<Rightarrow> nat \<Rightarrow> photon \<Rightarrow> fault + photon" where
  "micro_steps a idxorig 0 s = Inr s"
| "micro_steps a idxorig (Suc n) s =
     (case micro_step a idxorig s of
        Inl e \<Rightarrow> Inl e
      | Inr s' \<Rightarrow> micro_steps a idxorig n s')"

text \<open>
  The kernel for one thread: the photon it loads (\<open>idx1d\<close> is computed here), and
  \<open>totalmove\<close> turns of the loop.
\<close>

definition mcx_main_loop :: "kernel_args \<Rightarrow> photon \<Rightarrow> fault + photon" where
  "mcx_main_loop a s =
     (let idxorig = voxel_index (npos s)
      in micro_steps a idxorig (nat (totalmove a)) (s\<lparr>idx1d := idxorig\<rparr>))"

subsection \<open>The launch of the kernel\<close>

text \<open>
  \<^verbatim>\<open>main\<close> starts the kernel on \<^verbatim>\<open>MAX_N = 1024\<close> threads (lines 199, 200 and 270). They
  share the array \<^verbatim>\<open>field\<close> (\<^verbatim>\<open>gfield\<close> on the device) and the medium, which is only read;
  everything else a thread writes is its own. Line 164, \<^verbatim>\<open>field[idx1d]+=...\<close>, is a load of
  the cell, an addition and a store of the sum, and nothing orders them with the loads and
  stores of the other threads: the loop has no atomic operation and no barrier.

  A thread of the launch is its registers (the photon; the component \<open>field\<close> of the record
  is not used here, the array being shared), the voxel index \<^verbatim>\<open>idxorig\<close> of its start, the
  number of turns its loop has begun, and the store of line 164 it has still to do when it
  has loaded the cell and not yet stored the sum: the cell and the sum.
\<close>

record thread =
  regs :: photon
  origin :: int
  turns :: nat
  pending :: "(nat \<times> real) option"

text \<open>Lines 76 to 91: the thread takes its photon and computes the voxel index.\<close>

definition thread_init :: "photon \<Rightarrow> thread" where
  "thread_init s =
     \<lparr>regs = s\<lparr>idx1d := voxel_index (npos s)\<rparr>, origin = voxel_index (npos s), turns = 0,
      pending = None\<rparr>"

text \<open>
  A turn of the loop as far as the load of line 164: the scatter decision and the voxel
  step, which touch the registers only, then the relaunch, or the load of the cell from the
  shared array \<open>F\<close> as it is at that moment and the addition.
\<close>

definition load_turn :: "kernel_args \<Rightarrow> real list \<Rightarrow> thread \<Rightarrow> fault + thread" where
  "load_turn a F t =
     (case flight_phase a (regs t) of
        Inl e \<Rightarrow> Inl e
      | Inr m \<Rightarrow>
          if exits a m then
            Inr (t\<lparr>regs := m\<lparr>npos := p0 a, ndir := c0 a,
                               nlen := float3 0 0 (f3z (nlen m) + 1), idx1d := origin t\<rparr>,
                   turns := Suc (turns t)\<rparr>)
          else if idx1d m < 0 \<or> int (length F) \<le> idx1d m then Inl OutOfBounds
          else
            Inr (t\<lparr>regs := m, turns := Suc (turns t),
                   pending := Some (nat (idx1d m),
                     F ! nat (idx1d m) + (if f3x (nlen m) > 0 then f4w (npos m) else 0))\<rparr>))"

text \<open>
  One step of thread \<open>i\<close> on the shared array and the threads: the store it has pending; or
  else, while its loop has turns left, a turn as far as the load; or else nothing (the
  thread has finished, or there is no thread \<open>i\<close>).
\<close>

definition thread_step ::
  "kernel_args \<Rightarrow> nat \<Rightarrow> real list \<times> thread list \<Rightarrow> fault + real list \<times> thread list" where
  "thread_step a i st =
     (let F = fst st; ts = snd st in
      if length ts \<le> i then Inr st
      else
        case pending (ts ! i) of
          Some (c, v) \<Rightarrow> Inr (F[c := v], ts[i := (ts ! i)\<lparr>pending := None\<rparr>])
        | None \<Rightarrow>
            if turns (ts ! i) < nat (totalmove a) then
              case load_turn a F (ts ! i) of
                Inl e \<Rightarrow> Inl e
              | Inr t' \<Rightarrow> Inr (F, ts[i := t'])
            else Inr st)"

text \<open>
  A run of the launch under a schedule, the list of the threads that step, in order.
  Every interleaving of the loads and stores of the threads is the run of a schedule.
\<close>

fun mcx_launch ::
  "kernel_args \<Rightarrow> nat list \<Rightarrow> real list \<times> thread list \<Rightarrow> fault + real list \<times> thread list" where
  "mcx_launch a [] st = Inr st"
| "mcx_launch a (i # sched) st =
     (case thread_step a i st of Inl e \<Rightarrow> Inl e | Inr st' \<Rightarrow> mcx_launch a sched st')"

subsection \<open>The driver's configuration\<close>

text \<open>
  \<^verbatim>\<open>main\<close> fills the medium with material 1, zeroes the fluence, and starts the kernel with
  the values below (\<open>tm\<close> is \<^verbatim>\<open>MAX_EVENT = 1\<close> or the first command line argument).
\<close>

definition main_property :: "nat \<Rightarrow> float2" where
  "main_property i =
     (if i = 1 then float2 (9 / 1000) (75 / 100)
      else if i = 2 then float2 (6 / 1000) (75 / 100)
      else if i = 3 then float2 (9 / 1000) (95 / 100)
      else float2 0 0)"

definition main_media :: "nat list" where
  "main_media = replicate (nat DIMXYZ) 1"

definition main_field :: "real list" where
  "main_field = replicate (nat DIMXYZ) 0"

definition main_args :: "int \<Rightarrow> kernel_args" where
  "main_args tm =
     \<lparr>totalmove = tm, media = main_media, minstep = 1, lmax = 100,
      gg = 98 / 100, gg2 = 98 / 100 * (98 / 100), ggx2 = 2 * (98 / 100),
      p0 = float4 10 10 0 1, c0 = float4 0 0 1 0,
      maxidx = float3 (real_of_int (DIMX - 1)) (real_of_int (DIMY - 1)) (real_of_int (DIMZ - 1)),
      gproperty = main_property\<rparr>"

text \<open>
  The threads of the launch (lines 250 to 255): every photon at \<open>p0\<close> with direction \<open>c0\<close>
  and weight \<open>1\<close>; \<open>draws i\<close> is the sequence the generator of thread \<open>i\<close> will deliver, the
  seeds being values of \<^verbatim>\<open>rand()\<close>.
\<close>

definition MAX_N :: nat where "MAX_N = 1024"

definition main_photon :: "(nat \<Rightarrow> 32 word) \<Rightarrow> photon" where
  "main_photon d =
     \<lparr>npos = float4 10 10 0 1, ndir = float4 0 0 1 0, nlen = float3 0 0 0, idx1d = 0, ran = 0,
      field = [], mt = d, mti = 0\<rparr>"

definition main_threads :: "(nat \<Rightarrow> nat \<Rightarrow> 32 word) \<Rightarrow> thread list" where
  "main_threads draws = map (\<lambda>i. thread_init (main_photon (draws i))) [0..<MAX_N]"

section \<open>The scattering rotation in single precision\<close>






















section \<open>The specification's reading of the kernel\<close>

text \<open>
  The specification's exit test: the residual above \<open>lmax\<close>, or a coordinate outside
  \<open>[0, Nx] \<times> [0, Ny] \<times> [0, Nz]\<close>, the grid being \<open>DIMX \<times> DIMY \<times> DIMZ\<close>.
\<close>

definition spec_exits :: "kernel_args \<Rightarrow> photon \<Rightarrow> bool" where
  "spec_exits a s \<longleftrightarrow>
     f3x (nlen s) > lmax a \<or> f4x (npos s) < 0 \<or> f4y (npos s) < 0 \<or> f4z (npos s) < 0 \<or>
     f4x (npos s) > real_of_int DIMX \<or> f4y (npos s) > real_of_int DIMY \<or>
     f4z (npos s) > real_of_int DIMZ"

text \<open>The specification's rotation of a direction by the sampled angles.\<close>

definition spec_rotation :: "float4 \<Rightarrow> real \<Rightarrow> real \<Rightarrow> float4" where
  "spec_rotation d theta phi =
     (if \<bar>f4z d\<bar> < 1 then
        float4
          (sin theta * (f4x d * f4z d * cos phi - f4y d * sin phi) / sqrt (1 - (f4z d)\<^sup>2)
             + f4x d * cos theta)
          (sin theta * (f4y d * f4z d * cos phi + f4x d * sin phi) / sqrt (1 - (f4z d)\<^sup>2)
             + f4y d * cos theta)
          (- sin theta * sqrt (1 - (f4z d)\<^sup>2) * cos phi + f4z d * cos theta)
          (f4w d)
      else float4 (sin theta * cos phi) (sin theta * sin phi) (sgn (f4z d) * cos theta) (f4w d))"

text \<open>
  The order on fluence arrays: the same cells, and none smaller.
\<close>

definition fluence_le :: "real list \<Rightarrow> real list \<Rightarrow> bool" where
  "fluence_le f f' \<longleftrightarrow> length f' = length f \<and> (\<forall>v < length f. f ! v \<le> f' ! v)"



section \<open>The Mie routines\<close>

text \<open>
  The second source file computes in \<^verbatim>\<open>double\<close> and
  \<^verbatim>\<open>double _Complex\<close>: \<open>creal\<close>, \<open>cimag\<close>, \<open>cabs\<close>, \<open>conj\<close> and \<open>ctan\<close> are
  \<^term>\<open>Re\<close>, \<^term>\<open>Im\<close>, \<^term>\<open>cmod\<close>, \<^term>\<open>cnj\<close> and \<^term>\<open>tan\<close>. An array is the list
  of its allocated cells; \<open>rd\<close> and \<open>wr\<close> are the accesses \<^verbatim>\<open>a[i]\<close> and
  \<^verbatim>\<open>a[i] = v\<close>, which fault outside the allocated length.
\<close>

definition seq :: "fault + 'a \<Rightarrow> ('a \<Rightarrow> fault + 'b) \<Rightarrow> fault + 'b" where
  "seq m f = (case m of Inl e \<Rightarrow> Inl e | Inr v \<Rightarrow> f v)"

definition fdiv :: "real \<Rightarrow> real \<Rightarrow> fault + real" where
  "fdiv a b = (if b = 0 then Inl NotFinite else Inr (a / b))"

definition cdiv :: "complex \<Rightarrow> complex \<Rightarrow> fault + complex" where
  "cdiv a b = (if b = 0 then Inl NotFinite else Inr (a / b))"

definition rd :: "'a list \<Rightarrow> int \<Rightarrow> fault + 'a" where
  "rd xs i = (if 0 \<le> i \<and> i < int (length xs) then Inr (xs ! nat i) else Inl OutOfBounds)"

definition wr :: "'a list \<Rightarrow> int \<Rightarrow> 'a \<Rightarrow> fault + 'a list" where
  "wr xs i v = (if 0 \<le> i \<and> i < int (length xs) then Inr (xs[nat i := v]) else Inl OutOfBounds)"

text \<open>A counted loop: the body runs for every index of the list in turn, until a fault.\<close>

fun for_loop :: "'i list \<Rightarrow> ('i \<Rightarrow> 's \<Rightarrow> fault + 's) \<Rightarrow> 's \<Rightarrow> fault + 's" where
  "for_loop [] body s = Inr s"
| "for_loop (i # js) body s =
     (case body i s of Inl e \<Rightarrow> Inl e | Inr s' \<Rightarrow> for_loop js body s')"

text \<open>
  Modelled from the spec: the header \<^verbatim>\<open>mcx_const.h\<close> with \<^verbatim>\<open>ONE_PI\<close>, \<^verbatim>\<open>TWO_PI\<close> and
  \<^verbatim>\<open>NANGLES\<close> is not among the sources. The specification writes \<open>\<pi>\<close> and \<open>2\<pi>\<close> for the
  first two; \<open>NANGLES\<close>, the number of sampled angles, is a parameter of every routine
  below.
\<close>

definition ONE_PI :: real where "ONE_PI = pi"

definition TWO_PI_d :: real where "TWO_PI_d = 2 * pi"

text \<open>
  Modelled from the spec: the macro \<^verbatim>\<open>MCX_ERROR(id, msg)\<close> of \<^verbatim>\<open>mcx_utils.h\<close> is not among
  the sources. By the specification a routine that reaches it fails: it ends there and
  the error goes to the caller. The specification calls the first of the two errors of \<^verbatim>\<open>Mie\<close>
  \<open>InvalidInput\<close> and the second \<open>Unvalidated\<close>.
\<close>

datatype mcx_error = MCX_ERROR int string

definition InvalidInput :: mcx_error where
  "InvalidInput = MCX_ERROR (- 6) ''sphere size must be positive''"

definition Unvalidated :: mcx_error where
  "Unvalidated = MCX_ERROR (- 6) ''spheres with x>20000 are not validated''"

datatype mie_failure = Raised mcx_error | Faulted fault

text \<open>What a routine hands back through \<^verbatim>\<open>smatrix\<close>, \<^verbatim>\<open>qsca\<close> and \<^verbatim>\<open>g\<close>.\<close>

record mie_out =
  out_smatrix :: "float4 list"
  out_qsca :: real
  out_g :: real

subsection \<open>Lentz_Dn, Dn_up, Dn_down\<close>

record lentz_vars =
  aj :: complex
  alpha_j1 :: complex
  alpha_j2 :: complex
  zinv :: complex
  ratio :: complex
  runratio :: complex

text \<open>The body of the \<^verbatim>\<open>do\<close> loop of \<^verbatim>\<open>Lentz_Dn\<close>, lines 514 to 519.\<close>

definition Lentz_body :: "lentz_vars \<Rightarrow> fault + lentz_vars" where
  "Lentz_body v =
     (let a = zinv v - aj v in
      seq (cdiv 1 (alpha_j1 v)) (\<lambda>i1.
      seq (cdiv 1 (alpha_j2 v)) (\<lambda>i2.
      let a1 = i1 + a; a2 = i2 + a in
      seq (cdiv a1 a2) (\<lambda>r.
      Inr \<lparr>aj = a, alpha_j1 = a1, alpha_j2 = a2, zinv = - zinv v, ratio = r,
           runratio = runratio v * r\<rparr>))))"

text \<open>The test of line 520: the loop goes on while it holds.\<close>

definition Lentz_continue :: "lentz_vars \<Rightarrow> bool" where
  "Lentz_continue v \<longleftrightarrow> \<bar>cmod (ratio v) - 1\<bar> > 1 / 10 ^ 12"

text \<open>
  The loop has no bound on its turns in the source; a run that never leaves it is the
  value \<open>None\<close>.
\<close>

partial_function (option) Lentz_loop :: "lentz_vars \<Rightarrow> (fault + lentz_vars) option" where
  "Lentz_loop v =
     (case Lentz_body v of
        Inl e \<Rightarrow> Some (Inl e)
      | Inr v' \<Rightarrow> if Lentz_continue v' then Lentz_loop v' else Some (Inr v'))"

text \<open>Lines 505 to 511: the variables when the loop is entered.\<close>

definition Lentz_init :: "complex \<Rightarrow> int \<Rightarrow> fault + lentz_vars" where
  "Lentz_init z n =
     seq (cdiv 2 z) (\<lambda>zi.
     let alpha = (of_int n + 1 / 2) * zi;
         a = (- of_int n - 3 / 2) * zi
     in seq (cdiv 1 alpha) (\<lambda>ia.
        let a1 = a + ia; a2 = a in
        seq (cdiv a1 a2) (\<lambda>r.
        Inr \<lparr>aj = a, alpha_j1 = a1, alpha_j2 = a2, zinv = zi, ratio = r,
             runratio = alpha * r\<rparr>)))"

text \<open>Lines 505 to 520: the variables with which the loop is left.\<close>

definition Lentz_run :: "complex \<Rightarrow> int \<Rightarrow> (fault + lentz_vars) option" where
  "Lentz_run z n = (case Lentz_init z n of Inl e \<Rightarrow> Some (Inl e) | Inr v \<Rightarrow> Lentz_loop v)"

definition Lentz_Dn :: "complex \<Rightarrow> int \<Rightarrow> (fault + complex) option" where
  "Lentz_Dn z n =
     (case Lentz_run z n of
        None \<Rightarrow> None
      | Some (Inl e) \<Rightarrow> Some (Inl e)
      | Some (Inr v') \<Rightarrow> Some (Inr (of_int (- n) / z + runratio v')))"

text \<open>
  The loop cut off after \<open>k + 1\<close> turns: what it returns if it is left by then, and
  \<open>None\<close> if it is not.
\<close>

fun Lentz_turns :: "nat \<Rightarrow> lentz_vars \<Rightarrow> (fault + lentz_vars) option" where
  "Lentz_turns 0 v =
     (case Lentz_body v of
        Inl e \<Rightarrow> Some (Inl e)
      | Inr v' \<Rightarrow> if Lentz_continue v' then None else Some (Inr v'))"
| "Lentz_turns (Suc k) v =
     (case Lentz_body v of
        Inl e \<Rightarrow> Some (Inl e)
      | Inr v' \<Rightarrow> if Lentz_continue v' then Lentz_turns k v' else Some (Inr v'))"

definition Dn_up :: "complex \<Rightarrow> int \<Rightarrow> complex list \<Rightarrow> fault + complex list" where
  "Dn_up z nstop D =
     seq (cdiv 1 z) (\<lambda>zi.
     seq (cdiv (sin z) (cos z)) (\<lambda>ctanz.
     seq (cdiv 1 ctanz) (\<lambda>d0.
     seq (wr D 0 d0) (\<lambda>D0.
     for_loop [1..nstop - 1]
       (\<lambda>k D. let k_over_z = of_int k * zi in
          seq (rd D (k - 1)) (\<lambda>dk1.
          seq (cdiv 1 (k_over_z - dk1)) (\<lambda>q.
          wr D k (q - k_over_z))))
       D0))))"

definition Dn_down :: "complex \<Rightarrow> int \<Rightarrow> complex list \<Rightarrow> (fault + complex list) option" where
  "Dn_down z nstop D =
     (case cdiv 1 z of
        Inl e \<Rightarrow> Some (Inl e)
      | Inr zi \<Rightarrow>
          (case Lentz_Dn z nstop of
             None \<Rightarrow> None
           | Some (Inl e) \<Rightarrow> Some (Inl e)
           | Some (Inr d) \<Rightarrow>
               Some (seq (wr D (nstop - 1) d) (\<lambda>D0.
                 for_loop (rev [1..nstop - 1])
                   (\<lambda>k D. let k_over_z = of_int k * zi in
                      seq (rd D k) (\<lambda>dk.
                      seq (cdiv 1 (dk + k_over_z)) (\<lambda>q.
                      wr D (k - 1) (k_over_z - q))))
                   D0))))"

subsection \<open>The Mueller entries\<close>

text \<open>
  Lines 206 to 209 and 487 to 490: the four entries for one angle, from the two
  amplitudes.
\<close>

definition mueller :: "complex \<Rightarrow> complex \<Rightarrow> float4" where
  "mueller a1 a2 =
     float4 (0.5 * cmod a2 * cmod a2 + 0.5 * cmod a1 * cmod a1)
            (0.5 * cmod a2 * cmod a2 - 0.5 * cmod a1 * cmod a1)
            (Re (cnj a1 * a2))
            (Im (cnj a1 * a2))"

subsection \<open>small_Mie\<close>

definition small_Mie :: "nat \<Rightarrow> real \<Rightarrow> real \<Rightarrow> real list \<Rightarrow> float4 list \<Rightarrow> fault + mie_out" where
  "small_Mie NANGLES x mx mu smatrix =
     (let m = Complex mx 0;
          m2 = m * m;
          m4 = m2 * m2;
          x2 = x * x;
          x3 = x2 * x;
          x4 = x2 * x2;
          z0 = Complex (- Im m2) (Re m2 - 1)
      in
      seq (if Re m = 0 then
             cdiv (Complex 0 (2 / 3 * (1 - 0.2 * x2))) (Complex (1 - 0.5 * x2) (2 / 3 * x3))
           else
             let z1 = (2 / 3) * z0;
                 z2 = Complex (1 - 0.1 * x2 + (4 * Re m2 + 5) * x4 / 1400) (4 * x4 * Im m2 / 1400);
                 z3 = z1 * z2;
                 z4 = of_real (x3 * (1 - 0.1 * x2)) * z1;
                 D = Complex (2 + Re m2 + (1 - 0.7 * Re m2) * x2
                                + (8 * Re m4 - 385 * Re m2 + 350) / 1400 * x4 + Re z4)
                             ((- 0.7 * Im m2) * x2 + (8 * Im m4 - 385 * Im m2) / 1400 * x4 + Im z4)
             in cdiv z3 D) (\<lambda>ahat1.
      seq (if Re m = 0 then
             cdiv (Complex 0 (- (1 - 0.1 * x2) / 3)) (Complex (1 + 0.5 * x2) (- x3 / 3))
           else
             let z2 = of_real (x2 / 45) * z0;
                 z6 = Complex (1 + (2 * Re m2 - 5) * x2 / 70) (Im m2 * x2 / 35);
                 z7 = Complex (1 - (2 * Re m2 - 5) * x2 / 30) (- Im m2 * x2 / 15)
             in seq (cdiv z6 z7) (\<lambda>q. Inr (z2 * q))) (\<lambda>bhat1.
      seq (if Re m = 0 then Inr (Complex 0 (x2 / 30))
           else
             let z3 = of_real ((1 - x2 / 14) * x2 / 15) * z0;
                 z8 = Complex (2 * Re m2 + 3 - (Re m2 / 7 - 0.5) * x2)
                              (2 * Im m2 - Im m2 / 7 * x2)
             in cdiv z3 z8) (\<lambda>ahat2.
      let T = cmod ahat1 * cmod ahat1 + cmod bhat1 * cmod bhat1
                + 5 / 3 * cmod ahat2 * cmod ahat2;
          qsca = 6 * x4 * T
      in
      seq (fdiv (Re ahat1 * (Re ahat2 + Re bhat1) + Im ahat1 * (Im ahat2 + Im bhat1)) T) (\<lambda>g.
      let x3 = x3 * 1.5;
          ahat1 = ahat1 * of_real x3;
          bhat1 = bhat1 * of_real x3;
          ahat2 = ahat2 * of_real (x3 * 5 / 3)
      in
      seq (for_loop [0..<NANGLES]
             (\<lambda>j sm.
                seq (rd mu (int j)) (\<lambda>muj.
                let angle = 2 * muj * muj - 1;
                    s1 = ahat1 + (bhat1 + ahat2) * of_real muj;
                    s2 = bhat1 + (ahat1 + ahat2) * of_real angle
                in wr sm (int j) (mueller s1 s2)))
             smatrix) (\<lambda>sm.
      Inr \<lparr>out_smatrix = sm, out_qsca = qsca, out_g = g\<rparr>))))))"

subsection \<open>Mie\<close>

text \<open>The variables of \<^verbatim>\<open>Mie\<close> that its main loop changes.\<close>

record mie_vars =
  v_z1 :: complex
  v_psi0 :: real
  v_psi1 :: real
  v_xi0 :: complex
  v_xi1 :: complex
  v_anm1 :: complex
  v_bnm1 :: complex
  v_qsca :: real
  v_g :: real
  v_sign :: int
  v_s1 :: "complex list"
  v_s2 :: "complex list"
  v_pi0 :: "real list"
  v_pi1 :: "real list"
  v_tau :: "real list"

text \<open>Lines 149 to 166: the coefficients \<open>an\<close> and \<open>bn\<close> of one order, and the new \<open>z1\<close>.\<close>

definition Mie_coefficients ::
  "complex \<Rightarrow> real \<Rightarrow> complex list \<Rightarrow> int \<Rightarrow> mie_vars \<Rightarrow> fault + complex \<times> complex \<times> complex" where
  "Mie_coefficients m x D n v =
     (let psi0 = v_psi0 v; psi1 = v_psi1 v; xi0 = v_xi0 v; xi1 = v_xi1 v; z1 = v_z1 v in
      if Re m = 0 then
        seq (cdiv (of_real (of_int n * psi1 / x - psi0)) (of_real (of_int n / x) * xi1 - xi0)) (\<lambda>an.
        seq (cdiv (of_real psi1) xi1) (\<lambda>bn.
        Inr (an, bn, z1)))
      else if Im m = 0 then
        seq (rd D n) (\<lambda>Dn.
        let z1 = Complex (Re Dn / Re m + of_int n / x) (Im z1) in
        seq (cdiv (of_real (Re z1 * psi1 - psi0)) (of_real (Re z1) * xi1 - xi0)) (\<lambda>an.
        let z1 = Complex (Re Dn * Re m + of_int n / x) (Im z1) in
        seq (cdiv (of_real (Re z1 * psi1 - psi0)) (of_real (Re z1) * xi1 - xi0)) (\<lambda>bn.
        Inr (an, bn, z1))))
      else
        seq (rd D n) (\<lambda>Dn.
        let z1 = Dn / m;
            z1 = z1 + of_real (of_int n / x)
        in
        seq (cdiv (Complex (Re z1 * psi1 - psi0) (Im z1 * psi1)) (z1 * xi1 - xi0)) (\<lambda>an.
        let z1 = Dn * m;
            z1 = z1 + of_real (of_int n / x)
        in
        seq (cdiv (Complex (Re z1 * psi1 - psi0) (Im z1 * psi1)) (z1 * xi1 - xi0)) (\<lambda>bn.
        Inr (an, bn, z1)))))"

text \<open>Lines 168 to 175: the first loop over the angles.\<close>

definition Mie_amplitudes ::
  "real list \<Rightarrow> int \<Rightarrow> complex \<Rightarrow> complex \<Rightarrow> nat \<Rightarrow> mie_vars \<Rightarrow> fault + mie_vars" where
  "Mie_amplitudes mu n an bn k v =
     (let factor = (2 * of_int n + 1) / (of_int n + 1) / of_int n in
      seq (rd mu (int k)) (\<lambda>muk.
      seq (rd (v_pi1 v) (int k)) (\<lambda>p1.
      seq (rd (v_pi0 v) (int k)) (\<lambda>p0.
      let t = of_int n * muk * p1 - (of_int n + 1) * p0 in
      seq (wr (v_tau v) (int k) t) (\<lambda>tau'.
      let alpha = factor * p1;
          beta = factor * t
      in
      seq (rd (v_s1 v) (int k)) (\<lambda>a1.
      seq (wr (v_s1 v) (int k)
             (a1 + Complex (alpha * Re an + beta * Re bn) (alpha * Im an + beta * Im bn))) (\<lambda>s1'.
      seq (rd (v_s2 v) (int k)) (\<lambda>a2.
      seq (wr (v_s2 v) (int k)
             (a2 + Complex (alpha * Re bn + beta * Re an) (alpha * Im bn + beta * Im an))) (\<lambda>s2'.
      Inr (v\<lparr>v_tau := tau', v_s1 := s1', v_s2 := s2'\<rparr>))))))))))"

text \<open>Lines 177 to 181: the second loop over the angles.\<close>

definition Mie_angular :: "real list \<Rightarrow> int \<Rightarrow> nat \<Rightarrow> mie_vars \<Rightarrow> fault + mie_vars" where
  "Mie_angular mu n k v =
     seq (rd (v_pi1 v) (int k)) (\<lambda>factor.
     seq (rd mu (int k)) (\<lambda>muk.
     seq (rd (v_pi0 v) (int k)) (\<lambda>p0.
     seq (wr (v_pi1 v) (int k)
            (((2 * of_int n + 1) * muk * factor - (of_int n + 1) * p0) / of_int n)) (\<lambda>pi1'.
     seq (wr (v_pi0 v) (int k) factor) (\<lambda>pi0'.
     Inr (v\<lparr>v_pi1 := pi1', v_pi0 := pi0'\<rparr>))))))"

text \<open>Lines 148 to 199: one turn of the loop over the orders \<open>n\<close>.\<close>

definition Mie_order ::
  "nat \<Rightarrow> complex \<Rightarrow> real \<Rightarrow> complex list \<Rightarrow> real list \<Rightarrow> int \<Rightarrow> mie_vars \<Rightarrow> fault + mie_vars" where
  "Mie_order NANGLES m x D mu n v =
     seq (Mie_coefficients m x D n v) (\<lambda>(an, bn, z1).
     seq (for_loop [0..<NANGLES] (Mie_amplitudes mu n an bn) (v\<lparr>v_z1 := z1\<rparr>)) (\<lambda>v.
     seq (for_loop [0..<NANGLES] (Mie_angular mu n) v) (\<lambda>v.
     let factor = 2 * of_int n + 1;
         g = v_g v + (of_int n - 1 / of_int n)
               * (Re (v_anm1 v) * Re an + Im (v_anm1 v) * Im an
                  + Re (v_bnm1 v) * Re bn + Im (v_bnm1 v) * Im bn);
         g = g + factor / of_int n / (of_int n + 1) * (Re an * Re bn + Im an * Im bn);
         qsca = v_qsca v + factor * (cmod an * cmod an + cmod bn * cmod bn);
         sign = v_sign v * (- 1);
         factor = (2 * of_int n + 1) / x;
         xi = of_real factor * v_xi1 v - v_xi0 v
     in Inr (v\<lparr>v_g := g, v_qsca := qsca, v_sign := sign,
                v_xi0 := v_xi1 v, v_xi1 := xi,
                v_psi0 := v_psi1 v, v_psi1 := Re xi,
                v_anm1 := an, v_bnm1 := bn\<rparr>))))"

text \<open>Lines 205 to 210: the Mueller entries of every angle.\<close>

definition Mie_smatrix ::
  "nat \<Rightarrow> complex list \<Rightarrow> complex list \<Rightarrow> float4 list \<Rightarrow> fault + float4 list" where
  "Mie_smatrix NANGLES s1 s2 smatrix =
     for_loop [0..<NANGLES]
       (\<lambda>i sm. seq (rd s1 (int i)) (\<lambda>a1. seq (rd s2 (int i)) (\<lambda>a2.
          wr sm (int i) (mueller a1 a2))))
       smatrix"

text \<open>
  Lines 127 to 136: the array \<open>D\<close>. It is allocated and filled only where \<open>creal(m) > 0\<close>;
  elsewhere the pointer is never set, and a read through it is a fault of the model.
\<close>

definition Mie_D :: "complex \<Rightarrow> real \<Rightarrow> int \<Rightarrow> (fault + complex list) option" where
  "Mie_D m x nstop =
     (if Re m > 0 then
        let z = of_real x * m;
            D = replicate (nat (nstop + 1)) 0
        in if \<bar>Im m * x\<bar> < (13.78 * Re m - 10.8) * Re m + 3.9 then Some (Dn_up z nstop D)
           else Dn_down z nstop D
      else Some (Inr []))"

text \<open>
  Lines 115 to 221: \<^verbatim>\<open>Mie\<close> after its two checks and the small particle branch. It is
  entered with \<open>0 < x\<close>.
\<close>

definition Mie_main ::
  "nat \<Rightarrow> real \<Rightarrow> real \<Rightarrow> real list \<Rightarrow> float4 list \<Rightarrow> (fault + mie_out) option" where
  "Mie_main NANGLES x mx mu smatrix =
     (let m = Complex mx 0;
          nstop = \<lfloor>x + 4.05 * x powr 0.33333 + 2\<rfloor>
      in case Mie_D m x nstop of
           None \<Rightarrow> None
         | Some (Inl e) \<Rightarrow> Some (Inl e)
         | Some (Inr D) \<Rightarrow>
             Some (
               seq (fdiv (sin x) x) (\<lambda>q.
               let psi0 = sin x;
                   psi1 = q - cos x;
                   v = \<lparr>v_z1 = 0, v_psi0 = psi0, v_psi1 = psi1,
                        v_xi0 = Complex psi0 (cos x),
                        v_xi1 = Complex psi1 (cos x / x + sin x),
                        v_anm1 = 0, v_bnm1 = 0, v_qsca = 0, v_g = 0, v_sign = 1,
                        v_s1 = replicate NANGLES 0, v_s2 = replicate NANGLES 0,
                        v_pi0 = replicate NANGLES 0, v_pi1 = replicate NANGLES 1,
                        v_tau = replicate NANGLES 0\<rparr>
               in
               seq (for_loop [1..nstop] (Mie_order NANGLES m x D mu) v) (\<lambda>v.
               let qsca = v_qsca v * (2 / (x * x)) in
               seq (fdiv 4 qsca) (\<lambda>r.
               let g = v_g v * (r / (x * x)) in
               seq (Mie_smatrix NANGLES (v_s1 v) (v_s2 v) smatrix) (\<lambda>sm.
               Inr \<lparr>out_smatrix = sm, out_qsca = qsca, out_g = g\<rparr>))))))"

text \<open>Lifting a result of a routine that raises no error.\<close>

definition no_raise :: "fault + 'a \<Rightarrow> mie_failure + 'a" where
  "no_raise r = (case r of Inl e \<Rightarrow> Inl (Faulted e) | Inr v \<Rightarrow> Inr v)"

definition Mie ::
  "nat \<Rightarrow> real \<Rightarrow> real \<Rightarrow> real list \<Rightarrow> float4 list \<Rightarrow> (mie_failure + mie_out) option" where
  "Mie NANGLES x mx mu smatrix =
     (let m = Complex mx 0 in
      if x \<le> 0 then Some (Inl (Raised InvalidInput))
      else if x > 20000 then Some (Inl (Raised Unvalidated))
      else if (Re m = 0 \<and> x < 0.1) \<or> (Re m > 0 \<and> cmod m * x < 0.1) then
        Some (no_raise (small_Mie NANGLES x mx mu smatrix))
      else map_option no_raise (Mie_main NANGLES x mx mu smatrix))"

subsection \<open>MiePoly and WhittleMattern\<close>

text \<open>The four working arrays \<^verbatim>\<open>s11\<close>, \<^verbatim>\<open>s12\<close>, \<^verbatim>\<open>s33\<close>, \<^verbatim>\<open>s43\<close> of both routines.\<close>

record mueller_arrays =
  a11 :: "real list"
  a12 :: "real list"
  a33 :: "real list"
  a43 :: "real list"

text \<open>
  Lines 312 to 329 of \<^verbatim>\<open>MiePoly\<close>, and again lines 375 to 392 of \<^verbatim>\<open>WhittleMattern\<close>: the
  working arrays are copied to \<^verbatim>\<open>smatrix\<close> and \<open>g\<close> is the quotient of the two sums
  \<^verbatim>\<open>temp\<close> and \<^verbatim>\<open>temp2\<close>.
\<close>

definition trapezoid_turn ::
  "real list \<Rightarrow> mueller_arrays \<Rightarrow> nat \<Rightarrow> float4 list \<times> real \<times> real \<Rightarrow>
     fault + float4 list \<times> real \<times> real" where
  "trapezoid_turn mu w i = (\<lambda>(sm, temp, temp2).
     seq (rd (a11 w) (int i)) (\<lambda>e11.
     seq (rd (a12 w) (int i)) (\<lambda>e12.
     seq (rd (a33 w) (int i)) (\<lambda>e33.
     seq (rd (a43 w) (int i)) (\<lambda>e43.
     seq (wr sm (int i) (float4 e11 e12 e33 e43)) (\<lambda>sm.
     if i = 0 then
       seq (rd mu 0) (\<lambda>mu0.
       seq (rd sm 0) (\<lambda>e0.
       Inr (sm, temp + mu0 * f4x e0 * \<bar>mu0 - 1\<bar>, temp2 + f4x e0 * (mu0 - 1))))
     else
       seq (rd mu (int i)) (\<lambda>mui.
       seq (rd mu (int i - 1)) (\<lambda>mup.
       seq (rd sm (int i)) (\<lambda>ci.
       seq (rd sm (int i - 1)) (\<lambda>cp.
       Inr (sm, temp + mui * (f4x ci + f4x cp) * \<bar>mui - mup\<bar> / 2,
            temp2 + (f4x ci + f4x cp) * \<bar>mui - mup\<bar> / 2)))))))))))"

definition trapezoid_g ::
  "nat \<Rightarrow> real list \<Rightarrow> mueller_arrays \<Rightarrow> float4 list \<Rightarrow> fault + float4 list \<times> real" where
  "trapezoid_g NANGLES mu w smatrix =
     seq (for_loop [0..<NANGLES] (trapezoid_turn mu w) (smatrix, 0, 0)) (\<lambda>(sm, temp, temp2).
     seq (fdiv temp temp2) (\<lambda>g. Inr (sm, g)))"

text \<open>
  Lines 303 to 309 of \<^verbatim>\<open>MiePoly\<close>: the loop over the angles that adds one radius to the
  averages. Its test is \<^verbatim>\<open>i <= NANGLES\<close>.
\<close>

definition MiePoly_add ::
  "real \<Rightarrow> real \<Rightarrow> float4 list \<Rightarrow> nat \<Rightarrow> mueller_arrays \<Rightarrow> fault + mueller_arrays" where
  "MiePoly_add prob tot smatrix i w =
     seq (fdiv prob tot) (\<lambda>p.
     seq (rd smatrix (int i)) (\<lambda>c.
     seq (rd (a11 w) (int i)) (\<lambda>e11.
     seq (wr (a11 w) (int i) (e11 + p * f4x c)) (\<lambda>n11.
     seq (rd (a12 w) (int i)) (\<lambda>e12.
     seq (wr (a12 w) (int i) (e12 + p * f4y c)) (\<lambda>n12.
     seq (rd (a33 w) (int i)) (\<lambda>e33.
     seq (wr (a33 w) (int i) (e33 + p * f4z c)) (\<lambda>n33.
     seq (rd (a43 w) (int i)) (\<lambda>e43.
     seq (wr (a43 w) (int i) (e43 + p * f4w c)) (\<lambda>n43.
     Inr \<lparr>a11 = n11, a12 = n12, a33 = n33, a43 = n43\<rparr>))))))))))"

definition MiePoly_accumulate ::
  "nat \<Rightarrow> real \<Rightarrow> real \<Rightarrow> float4 list \<Rightarrow> mueller_arrays \<Rightarrow> fault + mueller_arrays" where
  "MiePoly_accumulate NANGLES prob tot smatrix w =
     for_loop [0..<Suc NANGLES] (MiePoly_add prob tot smatrix) w"

text \<open>A counted loop whose body may raise an error or not return.\<close>

fun for_loop_raising ::
  "'i list \<Rightarrow> ('i \<Rightarrow> 's \<Rightarrow> (mie_failure + 's) option) \<Rightarrow> 's \<Rightarrow> (mie_failure + 's) option" where
  "for_loop_raising [] body s = Some (Inr s)"
| "for_loop_raising (i # js) body s =
     (case body i s of
        None \<Rightarrow> None
      | Some (Inl e) \<Rightarrow> Some (Inl e)
      | Some (Inr s') \<Rightarrow> for_loop_raising js body s')"

definition NRS :: nat where "NRS = 1001"

text \<open>Lines 288 to 295: the radii, their Gaussian weights and the sum of the weights.\<close>

definition MiePoly_weights ::
  "real \<Rightarrow> real \<Rightarrow> fault + real list \<times> real list \<times> real" where
  "MiePoly_weights mean_radius CV =
     (let nrs = 1001;
          st_dev = mean_radius * CV;
          delta_size = 6 * st_dev / nrs
      in for_loop [0..<NRS]
           (\<lambda>ir (radii, weights, tot).
              seq (wr radii (int ir) (mean_radius - 3 * st_dev + real ir * delta_size)) (\<lambda>radii.
              seq (rd radii (int ir)) (\<lambda>r.
              seq (fdiv 1 (sqrt (2 * ONE_PI * st_dev * st_dev))) (\<lambda>c.
              seq (fdiv (- 1) (2 * st_dev * st_dev)) (\<lambda>d.
              seq (wr weights (int ir) (c * exp (d * (r - mean_radius) ^ 2))) (\<lambda>weights.
              seq (rd weights (int ir)) (\<lambda>prob.
              Inr (radii, weights, tot + prob))))))))
           (replicate NRS 0, replicate NRS 0, 0))"

text \<open>Lines 298 to 310: one radius, its call of \<^verbatim>\<open>Mie\<close> and the accumulation.\<close>

definition MiePoly_radius ::
  "nat \<Rightarrow> real \<Rightarrow> real list \<Rightarrow> real \<Rightarrow> real \<Rightarrow> real list \<Rightarrow> real list \<Rightarrow> real \<Rightarrow> nat \<Rightarrow>
     mie_out \<times> mueller_arrays \<Rightarrow> (mie_failure + mie_out \<times> mueller_arrays) option" where
  "MiePoly_radius NANGLES mx mu nmed lambda radii weights tot ir = (\<lambda>(out, w).
     case seq (rd radii (int ir)) (\<lambda>r. fdiv (TWO_PI_d * r * nmed) lambda) of
       Inl e \<Rightarrow> Some (Inl (Faulted e))
     | Inr szx \<Rightarrow>
         (case Mie NANGLES szx mx mu (out_smatrix out) of
            None \<Rightarrow> None
          | Some (Inl e) \<Rightarrow> Some (Inl e)
          | Some (Inr out') \<Rightarrow>
              Some (no_raise (
                seq (rd weights (int ir)) (\<lambda>prob.
                seq (MiePoly_accumulate NANGLES prob tot (out_smatrix out') w) (\<lambda>w'.
                Inr (out', w')))))))"

text \<open>
  \<^verbatim>\<open>MiePoly\<close>. Its parameter \<open>x\<close> is never read. \<open>qsca\<close> and \<open>g\<close> are the values the
  caller's variables hold at the call.
\<close>

definition MiePoly ::
  "nat \<Rightarrow> real \<Rightarrow> real list \<Rightarrow> float4 list \<Rightarrow> real \<Rightarrow> real \<Rightarrow> real \<Rightarrow> real \<Rightarrow> real \<Rightarrow> real \<Rightarrow>
     (mie_failure + mie_out) option" where
  "MiePoly NANGLES mx mu smatrix qsca g mean_radius CV nmed lambda =
     (let zeros = replicate NANGLES (0 :: real) in
      case for_loop [0..<NANGLES]
             (\<lambda>i w.
                seq (wr (a11 w) (int i) 0) (\<lambda>n11.
                seq (wr (a12 w) (int i) 0) (\<lambda>n12.
                seq (wr (a33 w) (int i) 0) (\<lambda>n33.
                seq (wr (a43 w) (int i) 0) (\<lambda>n43.
                Inr \<lparr>a11 = n11, a12 = n12, a33 = n33, a43 = n43\<rparr>)))))
             \<lparr>a11 = zeros, a12 = zeros, a33 = zeros, a43 = zeros\<rparr> of
        Inl e \<Rightarrow> Some (Inl (Faulted e))
      | Inr w0 \<Rightarrow>
          (case MiePoly_weights mean_radius CV of
             Inl e \<Rightarrow> Some (Inl (Faulted e))
           | Inr (radii, weights, tot) \<Rightarrow>
               (case for_loop_raising [0..<NRS]
                       (MiePoly_radius NANGLES mx mu nmed lambda radii weights tot)
                       (\<lparr>out_smatrix = smatrix, out_qsca = qsca, out_g = g\<rparr>, w0) of
                  None \<Rightarrow> None
                | Some (Inl e) \<Rightarrow> Some (Inl e)
                | Some (Inr (out, w)) \<Rightarrow>
                    Some (no_raise (
                      seq (trapezoid_g NANGLES mu w (out_smatrix out)) (\<lambda>(sm, g').
                      Inr (out\<lparr>out_smatrix := sm, out_g := g'\<rparr>)))))))"

text \<open>
  Lines 359 to 363 and 368 to 372 of \<^verbatim>\<open>WhittleMattern\<close>: the four assignments for the
  angle of index \<open>i\<close>.
\<close>

definition Whittle_cell ::
  "nat \<Rightarrow> real \<Rightarrow> real \<Rightarrow> nat \<Rightarrow> mueller_arrays \<Rightarrow> fault + mueller_arrays" where
  "Whittle_cell NANGLES klc D i w =
     seq (fdiv (real i * ONE_PI) (real NANGLES)) (\<lambda>t.
     let spectral_density = 1 / (1 + 4 * klc ^ 2 * (sin (t / 2)) ^ 2) powr (D / 2) in
     seq (wr (a11 w) (int i) ((1 + (cos t) ^ 2) * spectral_density)) (\<lambda>n11.
     seq (wr (a12 w) (int i) (((cos t) ^ 2 - 1) * spectral_density)) (\<lambda>n12.
     seq (wr (a33 w) (int i) (2 * cos t * spectral_density)) (\<lambda>n33.
     seq (wr (a43 w) (int i) 0) (\<lambda>n43.
     Inr \<lparr>a11 = n11, a12 = n12, a33 = n33, a43 = n43\<rparr>)))))"

text \<open>Lines 366 to 373: the loop over the angles. Its test is \<^verbatim>\<open>i <= NANGLES\<close>.\<close>

definition Whittle_spectrum ::
  "nat \<Rightarrow> real \<Rightarrow> real \<Rightarrow> mueller_arrays \<Rightarrow> fault + mueller_arrays" where
  "Whittle_spectrum NANGLES klc D w =
     for_loop [1..<Suc NANGLES] (Whittle_cell NANGLES klc D) w"

definition WhittleMattern ::
  "nat \<Rightarrow> real \<Rightarrow> real \<Rightarrow> real list \<Rightarrow> float4 list \<Rightarrow> real \<Rightarrow> fault + float4 list \<times> real" where
  "WhittleMattern NANGLES lc D mu smatrix lambda =
     (let zeros = replicate NANGLES (0 :: real) in
      seq (fdiv (TWO_PI_d * lc) lambda) (\<lambda>klc.
      seq (Whittle_cell NANGLES klc D 0 \<lparr>a11 = zeros, a12 = zeros, a33 = zeros, a43 = zeros\<rparr>) (\<lambda>w.
      seq (Whittle_spectrum NANGLES klc D w) (\<lambda>w.
      trapezoid_g NANGLES mu w smatrix))))"

subsection \<open>The specification's reading of the Mie routines\<close>


text \<open>
  The specification's anisotropy of a sampled phase function: the quotient of the two
  trapezoidal sums, the term of \<open>k = 0\<close> taking \<open>\<mu>\<^sub>0 - 1\<close> for the interval. The interval of every
  other term stands between absolute value bars; \<open>spec_anisotropy\<close> reads the substitute
  between the bars too, \<open>spec_anisotropy_signed\<close> reads it as written.
\<close>

definition spec_trapezoid :: "(real \<Rightarrow> real) \<Rightarrow> real list \<Rightarrow> real list \<Rightarrow> (real \<Rightarrow> real) \<Rightarrow> real" where
  "spec_trapezoid first mu s11 weight =
     weight (mu ! 0) * s11 ! 0 * first (mu ! 0 - 1) +
     (\<Sum>k = 1..<length mu. weight (mu ! k) * ((s11 ! k + s11 ! (k - 1)) / 2) * \<bar>mu ! k - mu ! (k - 1)\<bar>)"

definition spec_anisotropy :: "real list \<Rightarrow> real list \<Rightarrow> real" where
  "spec_anisotropy mu s11 =
     spec_trapezoid abs mu s11 (\<lambda>m. m) / spec_trapezoid abs mu s11 (\<lambda>m. 1)"

definition spec_anisotropy_signed :: "real list \<Rightarrow> real list \<Rightarrow> real" where
  "spec_anisotropy_signed mu s11 =
     spec_trapezoid (\<lambda>d. d) mu s11 (\<lambda>m. m) / spec_trapezoid (\<lambda>d. d) mu s11 (\<lambda>m. 1)"

text \<open>The bounds the specification states for the Mueller entries of one angle.\<close>

definition mueller_ok :: "float4 \<Rightarrow> bool" where
  "mueller_ok c \<longleftrightarrow> 0 \<le> f4x c \<and> \<bar>f4y c\<bar> \<le> f4x c"

definition mueller_upto :: "nat \<Rightarrow> float4 list \<Rightarrow> bool" where
  "mueller_upto n sm \<longleftrightarrow> n \<le> length sm \<and> (\<forall>k < n. mueller_ok (sm ! k))"

text \<open>
  Arguments and photons on which the kernel runs without a fault: the anisotropy is in
  \<open>(-1, 1)\<close> and not \<open>0\<close> with its square and double passed along, the medium fills the
  grid, \<open>maxidx\<close> is inside it; the voxel index is inside the grid, the fluence array fills
  it, and no draw is \<open>0\<close>.
\<close>

definition kernel_ok :: "kernel_args \<Rightarrow> bool" where
  "kernel_ok a \<longleftrightarrow>
     gg a \<noteq> 0 \<and> - 1 < gg a \<and> gg a < 1 \<and> gg2 a = gg a * gg a \<and> ggx2 a = 2 * gg a \<and>
     int (length (media a)) = DIMXYZ \<and>
     f3x (maxidx a) < real_of_int DIMX \<and> f3y (maxidx a) < real_of_int DIMY \<and>
     f3z (maxidx a) < real_of_int DIMZ"

definition photon_ok :: "photon \<Rightarrow> bool" where
  "photon_ok s \<longleftrightarrow>
     0 \<le> idx1d s \<and> idx1d s < DIMXYZ \<and> int (length (field s)) = DIMXYZ \<and> (\<forall>i. mt s i \<noteq> 0)"

text \<open>
  The states of a launch the proofs go through: no cell of the shared array is negative,
  every weight is positive and no pending store writes a negative value; and, for a thread
  that runs alone, its pending store writes no less than the cell holds.
\<close>

definition launch_ok :: "real list \<times> thread list \<Rightarrow> bool" where
  "launch_ok st \<longleftrightarrow>
     (\<forall>c < length (fst st). 0 \<le> fst st ! c) \<and>
     (\<forall>t \<in> set (snd st). 0 < f4w (npos (regs t)) \<and>
        (\<forall>c v. pending t = Some (c, v) \<longrightarrow> 0 \<le> v))"

definition alone_ok :: "real list \<times> thread list \<Rightarrow> bool" where
  "alone_ok st \<longleftrightarrow>
     length (snd st) = 1 \<and>
     (\<forall>c v. pending (snd st ! 0) = Some (c, v) \<longrightarrow> c < length (fst st) \<and> fst st ! c \<le> v)"


text \<open>
  The iteration at \<open>z = \<pi>\<close>, \<open>n = 1\<close>, in exact arithmetic. The quotients \<open>alpha_j1\<close> and
  \<open>alpha_j2\<close> are there, up to sign and a factor \<open>\<pi>\<close>, the quotients of consecutive terms of
  two solutions of the recurrence \<open>X (m + 2) = (2 m + 3) X (m + 1) - \<pi>\<^sup>2 X m\<close>:
  \<open>sbj m \<pi>\<close>, where \<open>sbj m x\<close> is \<open>x\<^sup>m\<^sup>+\<^sup>1 j\<^sub>m(x)\<close> with \<open>j\<^sub>m\<close> the spherical Bessel function of the
  first kind, and \<open>sbn m\<close>, which starts \<open>0, 1, 5\<close> at \<open>m = 1\<close>. \<open>dfact m\<close> is \<open>(2 m + 1)!!\<close>,
  \<open>sb_ratio k\<close> the value of \<open>ratio\<close> after \<open>k\<close> turns, and \<open>Lentz_at_pi k s\<close> the variables
  after \<open>k\<close> turns, \<open>s\<close> being the sign of \<open>zinv\<close>.
\<close>

fun sbj :: "nat \<Rightarrow> real \<Rightarrow> real" where
  "sbj 0 x = sin x"
| "sbj (Suc 0) x = sin x - x * cos x"
| "sbj (Suc (Suc m)) x = (2 * real m + 3) * sbj (Suc m) x - x * x * sbj m x"

fun dfact :: "nat \<Rightarrow> real" where
  "dfact 0 = 1"
| "dfact (Suc m) = (2 * real m + 3) * dfact m"

fun sbn :: "nat \<Rightarrow> real" where
  "sbn 0 = - 1 / (pi * pi)"
| "sbn (Suc 0) = 0"
| "sbn (Suc (Suc m)) = (2 * real m + 3) * sbn (Suc m) - pi * pi * sbn m"

definition sb_ratio :: "nat \<Rightarrow> real" where
  "sb_ratio k = (sbj (k + 3) pi * sbn (k + 2)) / (sbj (k + 2) pi * sbn (k + 3))"

definition Lentz_at_pi :: "nat \<Rightarrow> real \<Rightarrow> lentz_vars \<Rightarrow> bool" where
  "Lentz_at_pi k s v \<longleftrightarrow>
     (s = 1 \<or> s = - 1) \<and>
     zinv v = of_real (s * (2 / pi)) \<and>
     aj v = of_real (- s * ((2 * real k + 5) / pi)) \<and>
     alpha_j1 v = of_real (- s * (sbj (k + 3) pi / (pi * sbj (k + 2) pi))) \<and>
     alpha_j2 v = of_real (- s * (sbn (k + 3) / (pi * sbn (k + 2))))"


section \<open>Concrete inputs\<close>

text \<open>
  A photon of the driver's run one step from the face \<open>x = 127\<close>, well inside its free
  flight.
\<close>

definition edge_photon :: photon where
  "edge_photon =
     \<lparr>npos = float4 (253 / 2) 10 10 (1 / 2), ndir = float4 1 0 0 3, nlen = float3 5 7 0,
      idx1d = 2065674, ran = 0, field = main_field, mt = (\<lambda>_. 0), mti = 0\<rparr>"

text \<open>The same photon after its voxel step.\<close>

definition edge_photon_moved :: photon where
  "edge_photon_moved =
     edge_photon\<lparr>npos := float4 (255 / 2) 10 10 (1 / 2 * exp (- (9 / 1000))),
                 nlen := float3 (17 / 4) 8 0, idx1d := 2082058\<rparr>"

text \<open>A photon in the middle of the grid, flying along \<open>z\<close>.\<close>

definition inner_photon :: photon where
  "inner_photon =
     \<lparr>npos = float4 10 10 (11 / 2) (1 / 2), ndir = float4 0 0 1 3, nlen = float3 5 7 0,
      idx1d = 165125, ran = 0, field = main_field, mt = (\<lambda>_. 0), mti = 0\<rparr>"

text \<open>The same photon after its voxel step.\<close>

definition inner_photon_moved :: photon where
  "inner_photon_moved =
     inner_photon\<lparr>npos := float4 10 10 (13 / 2) (1 / 2 * exp (- (9 / 1000))),
                  nlen := float3 (17 / 4) 8 0, idx1d := 165126\<rparr>"

text \<open>The same photon after one micro-step.\<close>

definition inner_photon_once :: photon where
  "inner_photon_once =
     inner_photon_moved\<lparr>field := main_field[165126 := 1 / 2 * exp (- (9 / 1000))]\<rparr>"

text \<open>
  A thread as \<^verbatim>\<open>main\<close> launches it, whose generator delivers the draw \<open>r\<close>; and the same
  thread after its first turn as far as the load, when \<open>r\<close> is not \<open>0\<close> and at most \<open>2\<^sup>3\<^sup>0\<close>, a
  quarter of \<^verbatim>\<open>MAX_MT_RAND\<close>: it has drawn a free flight of \<open>ln 4\<close> at least, which does not
  end in the first voxel, has moved one step along \<open>z\<close> into the voxel \<open>(10, 10, 1)\<close>, cell
  \<open>165121\<close>, and is about to store \<open>v\<close> there.
\<close>

definition launched_thread :: "32 word \<Rightarrow> thread" where
  "launched_thread r = thread_init (main_photon (\<lambda>_. r))"

definition loaded_thread :: "32 word \<Rightarrow> real \<Rightarrow> thread" where
  "loaded_thread r v =
     \<lparr>regs = \<lparr>npos = float4 10 10 1 (exp (- (9 / 1000))), ndir = float4 0 0 1 0,
              nlen = float3 (- ln (float_of_uint r / MAX_MT_RAND) - 3 / 4) 1 0, idx1d = 165121,
              ran = r, field = [], mt = (\<lambda>_. r), mti = 1\<rparr>,
      origin = 165120, turns = 1, pending = Some (165121, v)\<rparr>"

text \<open>Draws for the threads of a launch: those of the threads \<open>0\<close>, \<open>1\<close> and \<open>2\<close> differ.\<close>

definition three_draws :: "nat \<Rightarrow> nat \<Rightarrow> 32 word" where
  "three_draws i j = (if i = 1 then 1000000000 else if i = 2 then 900000000 else 1073741824)"






text \<open>The two sums after the first \<open>n\<close> turns of the loop.\<close>

definition partial_trapezoid ::
  "nat \<Rightarrow> (real \<Rightarrow> real) \<Rightarrow> real list \<Rightarrow> real list \<Rightarrow> (real \<Rightarrow> real) \<Rightarrow> real" where
  "partial_trapezoid n first mu s11 weight =
     (if n = 0 then 0
      else weight (mu ! 0) * s11 ! 0 * first (mu ! 0 - 1) +
        (\<Sum>k = 1..<n. weight (mu ! k) * ((s11 ! k + s11 ! (k - 1)) / 2) * \<bar>mu ! k - mu ! (k - 1)\<bar>))"


text \<open>What holds of \<^verbatim>\<open>smatrix\<close>, \<^verbatim>\<open>temp\<close> and \<^verbatim>\<open>temp2\<close> after \<open>n\<close> turns of that loop.\<close>

definition trapezoid_inv ::
  "real list \<Rightarrow> mueller_arrays \<Rightarrow> nat \<Rightarrow> float4 list \<times> real \<times> real \<Rightarrow> bool" where
  "trapezoid_inv mu w n = (\<lambda>(sm, temp, temp2).
     (\<forall>k < n. k < length sm \<and> f4x (sm ! k) = a11 w ! k) \<and>
     temp = partial_trapezoid n abs mu (a11 w) (\<lambda>m. m) \<and>
     temp2 = partial_trapezoid n (\<lambda>d. d) mu (a11 w) (\<lambda>m. 1))"


section \<open>Proofs: the transport kernel\<close>

subsection \<open>The driver's arrays\<close>

lemma length_main_media: "length main_media = 2097152"
  by (simp add: main_media_def DIMXYZ_def DIMX_def DIMY_def DIMZ_def)

lemma nth_main_media: "i < 2097152 \<Longrightarrow> main_media ! i = 1"
  by (simp add: main_media_def DIMXYZ_def DIMX_def DIMY_def DIMZ_def)

lemma length_main_field: "length main_field = 2097152"
  by (simp add: main_field_def DIMXYZ_def DIMX_def DIMY_def DIMZ_def)

lemma nth_main_field: "i < 2097152 \<Longrightarrow> main_field ! i = 0"
  by (simp add: main_field_def DIMXYZ_def DIMX_def DIMY_def DIMZ_def)

subsection \<open>The outcome of a micro-step\<close>

lemma scatter_phase_weight: "scatter_phase a s = Inr s' \<Longrightarrow> npos s' = npos s \<and> field s' = field s"
proof -
  assume r: "scatter_phase a s = Inr s'"
  show ?thesis
  proof (cases "f3x (nlen s) \<le> 0")
    case False
    with r show ?thesis by (simp add: scatter_phase_def)
  next
    case True
    with r show ?thesis
      by (auto simp: scatter_phase_def mt19937s_def Let_def split: if_splits sum.splits)
  qed
qed

lemma voxel_phase_field: "voxel_phase a s = Inr s' \<Longrightarrow> field s' = field s"
  by (auto simp: voxel_phase_def Let_def split: if_splits sum.splits)

lemma flight_phase_field: "flight_phase a s = Inr s' \<Longrightarrow> field s' = field s"
  by (auto simp: flight_phase_def split: sum.splits dest!: scatter_phase_weight voxel_phase_field)

text \<open>
  C1, as amended. A micro-step that returns ends in exactly one of two ways, decided by the
  test of line 157 on the photon \<open>m\<close> that the scatter decision and the voxel step left:
  if the residual is above \<open>lmax\<close> or a coordinate is below \<open>0\<close> or above the kernel's
  argument \<open>maxidx\<close>, the photon is launched again (position and weight from \<open>p0\<close>,
  direction and scatter count from \<open>c0\<close>, residual and pathlength \<open>0\<close>, relaunch counter
  one more, voxel index that of the launch) and the fluence is left as it was; otherwise
  the photon is kept and \<open>(r > 0 ? w : 0)\<close> is added to the fluence cell \<open>idx1d\<close>.
\<close>

theorem micro_step_outcome:
  assumes "micro_step a idxorig s = Inr s'"
  shows "\<exists>m. flight_phase a s = Inr m \<and>
     (if exits a m then
        npos s' = p0 a \<and> ndir s' = c0 a \<and> nlen s' = float3 0 0 (f3z (nlen m) + 1) \<and>
        idx1d s' = idxorig \<and> field s' = field s
      else
        npos s' = npos m \<and> ndir s' = ndir m \<and> nlen s' = nlen m \<and> idx1d s' = idx1d m \<and>
        0 \<le> idx1d m \<and> idx1d m < int (length (field s)) \<and>
        field s' = (field s)[nat (idx1d m) :=
          field s ! nat (idx1d m) + (if f3x (nlen m) > 0 then f4w (npos m) else 0)])"
proof -
  from assms obtain m where m: "flight_phase a s = Inr m"
    and b: "boundary_phase a idxorig m = Inr s'"
    by (auto simp: micro_step_def split: sum.splits)
  have f: "field m = field s" using m by (rule flight_phase_field)
  show ?thesis
  proof (cases "exits a m")
    case True
    with b f m show ?thesis by (auto simp: boundary_phase_def)
  next
    case False
    with b f m show ?thesis by (auto simp: boundary_phase_def split: if_splits)
  qed
qed

lemma inner_flight: "flight_phase (main_args 1) inner_photon = Inr inner_photon_moved"
  by (simp add: flight_phase_def scatter_phase_def voxel_phase_def inner_photon_def
      inner_photon_moved_def main_args_def length_main_media nth_main_media main_property_def
      voxel_index_def DIMYZ_def DIMY_def DIMZ_def Let_def)

lemma inner_not_exits: "\<not> exits (main_args 1) inner_photon_moved"
  by (simp add: exits_def inner_photon_moved_def inner_photon_def main_args_def DIMX_def
      DIMY_def DIMZ_def)

lemma inner_step: "micro_step (main_args 1) 165120 inner_photon = Inr inner_photon_once"
  by (simp add: micro_step_def inner_flight boundary_phase_def inner_not_exits)
     (simp add: inner_photon_once_def inner_photon_moved_def inner_photon_def length_main_field
        nth_main_field)

theorem micro_step_outcome_witness:
  "flight_phase (main_args 1) inner_photon = Inr inner_photon_moved \<and>
   \<not> exits (main_args 1) inner_photon_moved \<and>
   micro_step (main_args 1) 165120 inner_photon = Inr inner_photon_once \<and>
   field inner_photon_once =
     (field inner_photon)[nat (idx1d inner_photon_moved) :=
        field inner_photon ! nat (idx1d inner_photon_moved) + f4w (npos inner_photon_moved)]"
proof -
  from micro_step_outcome [OF inner_step] obtain m
    where m: "flight_phase (main_args 1) inner_photon = Inr m"
      and r: "if exits (main_args 1) m then field inner_photon_once = field inner_photon
        else
          field inner_photon_once = (field inner_photon)[nat (idx1d m) :=
            field inner_photon ! nat (idx1d m) + (if f3x (nlen m) > 0 then f4w (npos m) else 0)]"
    by (auto split: if_splits)
  from m have "m = inner_photon_moved" by (simp add: inner_flight)
  with r inner_not_exits have
    "field inner_photon_once =
       (field inner_photon)[nat (idx1d inner_photon_moved) :=
          field inner_photon ! nat (idx1d inner_photon_moved)
            + (if f3x (nlen inner_photon_moved) > 0 then f4w (npos inner_photon_moved) else 0)]"
    by simp
  moreover have "f3x (nlen inner_photon_moved) > 0" by (simp add: inner_photon_moved_def)
  ultimately show ?thesis using inner_flight inner_not_exits inner_step by simp
qed

lemma edge_flight: "flight_phase (main_args 1) edge_photon = Inr edge_photon_moved"
  by (simp add: flight_phase_def scatter_phase_def voxel_phase_def edge_photon_def
      edge_photon_moved_def main_args_def length_main_media nth_main_media main_property_def
      voxel_index_def DIMYZ_def DIMY_def DIMZ_def Let_def)

lemma edge_step:
  "micro_step (main_args 1) 165120 edge_photon =
     Inr (edge_photon\<lparr>npos := float4 10 10 0 1, ndir := float4 0 0 1 0,
                      nlen := float3 0 0 1, idx1d := 165120\<rparr>)"
  by (simp add: micro_step_def edge_flight boundary_phase_def exits_def)
     (simp add: edge_photon_def edge_photon_moved_def main_args_def DIMX_def DIMY_def DIMZ_def)

text \<open>
  C1 as stated fails on the driver's run. The photon \<open>edge_photon\<close> moves to
  \<open>(127.5, 10, 10)\<close> with residual \<open>4.25\<close> and a positive weight: inside
  \<open>[0, 128] \<times> [0, 128] \<times> [0, 128]\<close> and below \<open>lmax = 100\<close>, so by the claim its weight is
  deposited. The kernel launches it again and deposits nothing, since \<open>maxidx\<close> is
  \<open>(127, 127, 127)\<close>.
\<close>

theorem relaunch_inside_grid:
  "flight_phase (main_args 1) edge_photon = Inr edge_photon_moved \<and>
   \<not> spec_exits (main_args 1) edge_photon_moved \<and>
   0 < f3x (nlen edge_photon_moved) \<and> 0 < f4w (npos edge_photon_moved) \<and>
   micro_step (main_args 1) 165120 edge_photon =
     Inr (edge_photon\<lparr>npos := float4 10 10 0 1, ndir := float4 0 0 1 0,
                      nlen := float3 0 0 1, idx1d := 165120\<rparr>) \<and>
   field (edge_photon\<lparr>npos := float4 10 10 0 1, ndir := float4 0 0 1 0,
                      nlen := float3 0 0 1, idx1d := 165120\<rparr>) = field edge_photon"
  by (simp add: edge_flight edge_step)
     (simp add: spec_exits_def edge_photon_moved_def edge_photon_def main_args_def DIMX_def
        DIMY_def DIMZ_def)

subsection \<open>The Henyey-Greenstein cosine\<close>

lemma float_of_uint_bounds: "0 \<le> float_of_uint r \<and> float_of_uint r < 4294967296"
proof -
  have "unat r < 2 ^ LENGTH(32)" by (rule unsigned_less)
  then have "unat r < 4294967296" by simp
  then have "real (unat r) < real 4294967296" by (simp only: of_nat_less_iff)
  moreover have "0 \<le> real (unat r)" by (rule of_nat_0_le_iff)
  ultimately show ?thesis by (simp only: float_of_uint_def of_nat_numeral)
qed

lemma hg_den_nonzero:
  assumes "- 1 < g" "g < 1"
  shows "1 - g + 2 * g * (float_of_uint r / MAX_MT_RAND) \<noteq> 0"
proof -
  define u where "u = float_of_uint r / MAX_MT_RAND"
  have u: "0 \<le> u" "u < 1"
    using float_of_uint_bounds [of r] by (simp_all add: u_def MAX_MT_RAND_def)
  have "0 < 1 - g + 2 * g * u"
  proof (cases "0 \<le> g")
    case True
    then have "0 \<le> 2 * g * u" using u by simp
    then show ?thesis using assms by linarith
  next
    case False
    then have "g * u \<ge> g * 1" using u by (intro mult_left_mono_neg) auto
    then show ?thesis using assms by linarith
  qed
  then show ?thesis by (simp add: u_def)
qed

text \<open>
  C2, as amended. With the arguments the driver passes (\<open>gg2 = g\<^sup>2\<close>, \<open>ggx2 = 2 g\<close>), for
  \<open>g \<noteq> 0\<close> and every draw \<open>u' = ran / 2\<^sup>3\<^sup>2\<close> with \<open>1 - g + 2 g u' \<noteq> 0\<close> (every draw
  when \<open>-1 < g < 1\<close>), the cosine the kernel uses is
  \<open>(1 + g\<^sup>2 - ((1 - g\<^sup>2) / (1 - g + 2 g u'))\<^sup>2) / (2 g)\<close>.
\<close>

theorem hg_costheta_formula:
  assumes "g \<noteq> 0" and "1 - g + 2 * g * (float_of_uint r / MAX_MT_RAND) \<noteq> 0"
  shows "hg_costheta g (g * g) (2 * g) r =
     Inr ((1 + g\<^sup>2 - ((1 - g\<^sup>2) / (1 - g + 2 * g * (float_of_uint r / MAX_MT_RAND)))\<^sup>2) / (2 * g))"
  using assms by (simp add: hg_costheta_def GPUDIV_def Let_def power2_eq_square)

text \<open>
  C2 as stated fails at \<open>g = 0\<close>: the kernel has no branch for it. It divides by
  \<open>ggx2 = 0\<close> (the quotient \<open>0 / 0\<close>), and no cosine \<open>2 u' - 1\<close> results; here \<open>u' = 1/4\<close>.
\<close>

theorem hg_costheta_zero_g:
  "hg_costheta 0 (0 * 0) (2 * 0) 1073741824 \<noteq>
     Inr (2 * (float_of_uint 1073741824 / MAX_MT_RAND) - 1)"
  by (simp add: hg_costheta_def GPUDIV_def)

lemma zero_g_faults: "hg_costheta 0 (0 * 0) (2 * 0) r = Inl NotFinite"
  by (simp add: hg_costheta_def GPUDIV_def)

theorem hg_costheta_formula_witness:
  "hg_costheta (98 / 100) (98 / 100 * (98 / 100)) (2 * (98 / 100)) 0 = Inr (- 1)"
  using hg_costheta_formula [of "98 / 100" 0] by (simp add: power2_eq_square float_of_uint_def)

subsection \<open>The rotation of the direction\<close>

lemma rsqrtf_times:
  assumes "0 < t"
  shows "s * t * c / sqrt t = s * sqrt t * c"
proof -
  have "s * t * c / sqrt t = s * (t / sqrt t) * c" by simp
  also have "t / sqrt t = sqrt t" using assms by (simp add: real_div_sqrt)
  finally show ?thesis .
qed

text \<open>
  C3, as amended. For every direction \<open>(dx, dy, dz)\<close> and all angles: where \<open>-1 < dz < 1\<close> and
  \<open>sin \<theta> > 10\<^sup>-\<^sup>2\<^sup>0\<close> the new direction is the one the claim gives for \<open>|dz| < 1\<close>; where
  \<open>-1 < dz < 1\<close> and \<open>sin \<theta> \<le> 10\<^sup>-\<^sup>2\<^sup>0\<close> (the guard of line 128) the direction is left as it
  is; where \<open>dz \<ge> 1\<close> it is \<open>(sin \<theta> cos \<phi>, sin \<theta> sin \<phi>, cos \<theta>)\<close>.
\<close>

theorem scatter_dir_cases:
  "(- 1 < dz \<and> dz < 1 \<and> 1 / 10 ^ 20 < sin theta \<longrightarrow>
      scatter_dir (float4 dx dy dz n) (sin phi) (cos phi) (sin theta) (cos theta) =
        float4 (sin theta * (dx * dz * cos phi - dy * sin phi) / sqrt (1 - dz\<^sup>2) + dx * cos theta)
               (sin theta * (dy * dz * cos phi + dx * sin phi) / sqrt (1 - dz\<^sup>2) + dy * cos theta)
               (- sin theta * sqrt (1 - dz\<^sup>2) * cos phi + dz * cos theta) n) \<and>
   (- 1 < dz \<and> dz < 1 \<and> sin theta \<le> 1 / 10 ^ 20 \<longrightarrow>
      scatter_dir (float4 dx dy dz n) (sin phi) (cos phi) (sin theta) (cos theta) =
        float4 dx dy dz n) \<and>
   (1 \<le> dz \<longrightarrow>
      scatter_dir (float4 dx dy dz n) (sin phi) (cos phi) (sin theta) (cos theta) =
        float4 (sin theta * cos phi) (sin theta * sin phi) (cos theta) n)"
proof (intro conjI impI)
  assume a: "- 1 < dz \<and> dz < 1 \<and> 1 / 10 ^ 20 < sin theta"
  then have "dz\<^sup>2 < 1" by (simp add: abs_square_less_1 abs_less_iff)
  then have pos: "0 < 1 - dz * dz" by (simp add: power2_eq_square)
  have z: "sin theta * (1 - dz * dz) * cos phi / sqrt (1 - dz * dz) =
      sin theta * sqrt (1 - dz * dz) * cos phi"
    using pos by (rule rsqrtf_times)
  show "scatter_dir (float4 dx dy dz n) (sin phi) (cos phi) (sin theta) (cos theta) =
        float4 (sin theta * (dx * dz * cos phi - dy * sin phi) / sqrt (1 - dz\<^sup>2) + dx * cos theta)
               (sin theta * (dy * dz * cos phi + dx * sin phi) / sqrt (1 - dz\<^sup>2) + dy * cos theta)
               (- sin theta * sqrt (1 - dz\<^sup>2) * cos phi + dz * cos theta) n"
    using a z by (simp add: scatter_dir_def Let_def power2_eq_square)
next
  assume "- 1 < dz \<and> dz < 1 \<and> sin theta \<le> 1 / 10 ^ 20"
  then show "scatter_dir (float4 dx dy dz n) (sin phi) (cos phi) (sin theta) (cos theta) =
        float4 dx dy dz n"
    by (simp add: scatter_dir_def Let_def)
next
  assume "1 \<le> dz"
  then show "scatter_dir (float4 dx dy dz n) (sin phi) (cos phi) (sin theta) (cos theta) =
        float4 (sin theta * cos phi) (sin theta * sin phi) (cos theta) n"
    by (simp add: scatter_dir_def Let_def)
qed

text \<open>Where \<open>dz \<le> -1\<close> line 137 gives the third component the sign of \<open>cos \<theta>\<close>, not of \<open>dz\<close>.\<close>

lemma scatter_dir_downward:
  "dz \<le> - 1 \<Longrightarrow>
     scatter_dir (float4 dx dy dz n) sphi cphi stheta ctheta =
       float4 (stheta * cphi) (stheta * sphi) ctheta n"
  by (simp add: scatter_dir_def Let_def)

text \<open>
  C3 as stated fails twice. A photon flying along \<open>x\<close> that is scattered by \<open>\<theta> = \<pi>\<close>
  should turn back, and the guard of line 128 leaves its direction as it is; a photon
  flying along \<open>-z\<close> that is scattered by \<open>\<theta> = 0\<close> should keep its direction, and line 137
  turns it to \<open>+z\<close>.
\<close>

theorem scatter_dir_not_spec_rotation:
  "scatter_dir (float4 1 0 0 0) (sin 0) (cos 0) (sin pi) (cos pi) \<noteq> spec_rotation (float4 1 0 0 0) pi 0 \<and>
   scatter_dir (float4 0 0 (- 1) 0) (sin 0) (cos 0) (sin 0) (cos 0) \<noteq> spec_rotation (float4 0 0 (- 1) 0) 0 0"
  by (simp add: scatter_dir_def spec_rotation_def Let_def)

theorem scatter_dir_cases_witness:
  "scatter_dir (float4 1 0 0 0) (sin 0) (cos 0) (sin (pi / 2)) (cos (pi / 2)) = float4 0 0 (- 1) 0 \<and>
   scatter_dir (float4 1 0 0 0) (sin 0) (cos 0) (sin pi) (cos pi) = float4 1 0 0 0 \<and>
   scatter_dir (float4 0 0 1 0) (sin 0) (cos 0) (sin (pi / 2)) (cos (pi / 2)) = float4 1 0 0 0"
  using scatter_dir_cases [of 0 "pi / 2" 1 0 0 0] scatter_dir_cases [of 0 pi 1 0 0 0]
    scatter_dir_cases [of 1 "pi / 2" 0 0 0 0]
  by simp

subsection \<open>The norm of the direction\<close>















subsection \<open>The rotation in single precision\<close>
























subsection \<open>The weight and the fluence\<close>

lemma fluence_le_refl: "fluence_le f f"
  by (simp add: fluence_le_def)

lemma fluence_le_trans: "fluence_le f g \<Longrightarrow> fluence_le g h \<Longrightarrow> fluence_le f h"
  by (auto simp: fluence_le_def intro: order_trans)

lemma fluence_le_deposit: "0 \<le> d \<Longrightarrow> fluence_le f (f[i := f ! i + d])"
  by (cases "i < length f") (auto simp: fluence_le_def nth_list_update)

lemma voxel_phase_weight:
  assumes "voxel_phase a s = Inr s'" "0 < f4w (npos s)"
  shows "0 < f4w (npos s') \<and> field s' = field s"
  using assms by (auto simp: voxel_phase_def Let_def split: if_splits sum.splits)

lemma boundary_phase_weight:
  assumes "boundary_phase a io s = Inr s'" "0 < f4w (npos s)" "0 < f4w (p0 a)"
  shows "0 < f4w (npos s') \<and> fluence_le (field s) (field s')"
proof (cases "exits a s")
  case True
  with assms show ?thesis by (auto simp: boundary_phase_def fluence_le_refl)
next
  case False
  with assms(1) have f: "field s' = (field s)[nat (idx1d s) :=
      field s ! nat (idx1d s) + (if f3x (nlen s) > 0 then f4w (npos s) else 0)]"
    and p: "npos s' = npos s"
    by (auto simp: boundary_phase_def split: if_splits)
  have "0 \<le> (if f3x (nlen s) > 0 then f4w (npos s) else 0)" using assms(2) by simp
  then have "fluence_le (field s) (field s')" unfolding f by (rule fluence_le_deposit)
  then show ?thesis using p assms(2) by simp
qed

lemma micro_step_weight:
  assumes "micro_step a io s = Inr s'" "0 < f4w (npos s)" "0 < f4w (p0 a)"
  shows "0 < f4w (npos s') \<and> fluence_le (field s) (field s')"
proof -
  from assms(1) obtain s1 s2 where 1: "scatter_phase a s = Inr s1"
    and 2: "voxel_phase a s1 = Inr s2" and 3: "boundary_phase a io s2 = Inr s'"
    by (auto simp: micro_step_def flight_phase_def split: sum.splits)
  have w1: "0 < f4w (npos s1)" and f1: "field s1 = field s"
    using scatter_phase_weight [OF 1] assms(2) by simp_all
  have w2: "0 < f4w (npos s2)" and f2: "field s2 = field s1"
    using voxel_phase_weight [OF 2 w1] by simp_all
  show ?thesis using boundary_phase_weight [OF 3 w2 assms(3)] f1 f2 by simp
qed

lemma micro_steps_weight:
  "micro_steps a io n s = Inr s' \<Longrightarrow> 0 < f4w (npos s) \<Longrightarrow> 0 < f4w (p0 a) \<Longrightarrow>
     0 < f4w (npos s') \<and> fluence_le (field s) (field s')"
proof (induction n arbitrary: s)
  case 0
  then show ?case by (simp add: fluence_le_refl)
next
  case (Suc n)
  from Suc.prems(1) obtain m where m: "micro_step a io s = Inr m"
    and r: "micro_steps a io n m = Inr s'"
    by (auto split: sum.splits)
  have 1: "0 < f4w (npos m)" "fluence_le (field s) (field m)"
    using micro_step_weight [OF m Suc.prems(2,3)] by simp_all
  have 2: "0 < f4w (npos s')" "fluence_le (field m) (field s')"
    using Suc.IH [OF r 1(1) Suc.prems(3)] by simp_all
  show ?case using 1 2 by (blast intro: fluence_le_trans)
qed

subsection \<open>The shared fluence array\<close>

text \<open>
  The kernel function on one thread is the launch of that thread with its store done
  right after its load.
\<close>

lemma micro_step_load_store:
  assumes "pending t = None"
  shows "micro_step a (origin t) (regs t) =
     (case load_turn a (field (regs t)) t of
        Inl e \<Rightarrow> Inl e
      | Inr t' \<Rightarrow>
          Inr (case pending t' of
                 None \<Rightarrow> regs t'
               | Some (c, v) \<Rightarrow> (regs t')\<lparr>field := (field (regs t))[c := v]\<rparr>))"
proof (cases "flight_phase a (regs t)")
  case (Inl e)
  then show ?thesis by (simp add: micro_step_def load_turn_def)
next
  case (Inr m)
  then have "field m = field (regs t)" by (rule flight_phase_field)
  with Inr assms show ?thesis
    by (simp add: micro_step_def load_turn_def boundary_phase_def)
qed

lemma flight_phase_weight:
  assumes "flight_phase a s = Inr m" "0 < f4w (npos s)"
  shows "0 < f4w (npos m)"
proof -
  from assms(1) obtain s1 where 1: "scatter_phase a s = Inr s1" and 2: "voxel_phase a s1 = Inr m"
    by (auto simp: flight_phase_def split: sum.splits)
  have "0 < f4w (npos s1)" using scatter_phase_weight [OF 1] assms(2) by simp
  then show ?thesis using voxel_phase_weight [OF 2] by simp
qed

lemma load_turn_ok:
  assumes "load_turn a F t = Inr t'" and "0 < f4w (npos (regs t))" and "0 < f4w (p0 a)"
    and "pending t = None"
  shows "0 < f4w (npos (regs t')) \<and>
         (\<forall>c v. pending t' = Some (c, v) \<longrightarrow> c < length F \<and> v - F ! c \<ge> 0)"
proof -
  from assms(1) obtain m where m: "flight_phase a (regs t) = Inr m"
    by (auto simp: load_turn_def split: sum.splits)
  have w: "0 < f4w (npos m)" using m assms(2) by (rule flight_phase_weight)
  show ?thesis
  proof (cases "exits a m")
    case True
    with assms(1,3,4) m show ?thesis by (auto simp: load_turn_def)
  next
    case False
    with assms(1) m have b: "0 \<le> idx1d m" "idx1d m < int (length F)"
      and t': "t' = t\<lparr>regs := m, turns := Suc (turns t),
                   pending := Some (nat (idx1d m),
                     F ! nat (idx1d m) + (if f3x (nlen m) > 0 then f4w (npos m) else 0))\<rparr>"
      by (auto simp: load_turn_def split: if_splits)
    from b have "nat (idx1d m) < length F" by simp
    with w show ?thesis by (simp add: t')
  qed
qed

lemma thread_step_length:
  "thread_step a i st = Inr st' \<Longrightarrow>
     length (fst st') = length (fst st) \<and> length (snd st') = length (snd st)"
  by (auto simp: thread_step_def Let_def split: if_splits option.splits sum.splits)

lemma thread_step_ok:
  assumes "thread_step a i st = Inr st'" and "launch_ok st" and "0 < f4w (p0 a)"
  shows "launch_ok st'"
proof (cases "length (snd st) \<le> i")
  case True
  with assms(1,2) show ?thesis by (simp add: thread_step_def Let_def)
next
  case i: False
  then have mem: "snd st ! i \<in> set (snd st)" by simp
  with assms(2) have wi: "0 < f4w (npos (regs (snd st ! i)))"
    and pi: "\<And>c v. pending (snd st ! i) = Some (c, v) \<Longrightarrow> 0 \<le> v"
    by (auto simp: launch_ok_def)
  from assms(2) have F: "\<And>c. c < length (fst st) \<Longrightarrow> 0 \<le> fst st ! c"
    and T: "\<And>t. t \<in> set (snd st) \<Longrightarrow> 0 < f4w (npos (regs t)) \<and>
        (\<forall>c v. pending t = Some (c, v) \<longrightarrow> 0 \<le> v)"
    by (auto simp: launch_ok_def)
  show ?thesis
  proof (cases "pending (snd st ! i)")
    case (Some p)
    obtain c v where p: "p = (c, v)" by (cases p)
    with Some i assms(1) have st': "st' = ((fst st)[c := v],
        (snd st)[i := (snd st ! i)\<lparr>pending := None\<rparr>])"
      by (simp add: thread_step_def Let_def)
    have v: "0 \<le> v" using pi Some p by simp
    have 1: "\<forall>d < length (fst st'). 0 \<le> fst st' ! d"
    proof (intro allI impI)
      fix d assume "d < length (fst st')"
      then have d: "d < length (fst st)" by (simp add: st')
      show "0 \<le> fst st' ! d" using F [OF d] v d by (cases "d = c") (simp_all add: st')
    qed
    have 2: "\<forall>t \<in> set (snd st'). 0 < f4w (npos (regs t)) \<and>
        (\<forall>c v. pending t = Some (c, v) \<longrightarrow> 0 \<le> v)"
    proof
      fix t assume "t \<in> set (snd st')"
      then have "t = (snd st ! i)\<lparr>pending := None\<rparr> \<or> t \<in> set (snd st)"
        using set_update_subset_insert [of "snd st" i] by (auto simp: st')
      then show "0 < f4w (npos (regs t)) \<and> (\<forall>c v. pending t = Some (c, v) \<longrightarrow> 0 \<le> v)"
        using wi T by auto
    qed
    from 1 2 show ?thesis by (simp add: launch_ok_def)
  next
    case None
    show ?thesis
    proof (cases "turns (snd st ! i) < nat (totalmove a)")
      case False
      with None i assms(1,2) show ?thesis by (simp add: thread_step_def Let_def)
    next
      case True
      with None i assms(1) obtain t' where l: "load_turn a (fst st) (snd st ! i) = Inr t'"
        and st': "st' = (fst st, (snd st)[i := t'])"
        by (auto simp: thread_step_def Let_def split: sum.splits)
      have t': "0 < f4w (npos (regs t'))"
        "\<And>c v. pending t' = Some (c, v) \<Longrightarrow> c < length (fst st) \<and> v - fst st ! c \<ge> 0"
        using load_turn_ok [OF l wi assms(3) None] by auto
      have p': "\<And>c v. pending t' = Some (c, v) \<Longrightarrow> 0 \<le> v"
      proof -
        fix c v assume "pending t' = Some (c, v)"
        then have "c < length (fst st)" "v - fst st ! c \<ge> 0" using t'(2) by auto
        with F [of c] show "0 \<le> v" by linarith
      qed
      have 2: "\<forall>t \<in> set (snd st'). 0 < f4w (npos (regs t)) \<and>
          (\<forall>c v. pending t = Some (c, v) \<longrightarrow> 0 \<le> v)"
      proof
        fix t assume "t \<in> set (snd st')"
        then have "t = t' \<or> t \<in> set (snd st)"
          using set_update_subset_insert [of "snd st" i] by (auto simp: st')
        then show "0 < f4w (npos (regs t)) \<and> (\<forall>c v. pending t = Some (c, v) \<longrightarrow> 0 \<le> v)"
          using t'(1) p' T by auto
      qed
      from F 2 show ?thesis by (simp add: launch_ok_def st')
    qed
  qed
qed

lemma thread_step_alone:
  assumes "thread_step a i st = Inr st'" and "alone_ok st" and "launch_ok st" and "0 < f4w (p0 a)"
  shows "alone_ok st' \<and> fluence_le (fst st) (fst st')"
proof (cases "length (snd st) \<le> i")
  case True
  with assms(1,2) show ?thesis by (simp add: thread_step_def Let_def fluence_le_refl)
next
  case False
  with assms(2) have i: "i = 0" and len: "length (snd st) = 1" by (simp_all add: alone_ok_def)
  from len have ne: "snd st \<noteq> []" by auto
  from assms(3) len have w: "0 < f4w (npos (regs (snd st ! 0)))"
    by (auto simp: launch_ok_def)
  show ?thesis
  proof (cases "pending (snd st ! 0)")
    case (Some p)
    obtain c v where p: "p = (c, v)" by (cases p)
    with Some i ne assms(1) have st': "st' = ((fst st)[c := v],
        (snd st)[0 := (snd st ! 0)\<lparr>pending := None\<rparr>])"
      by (simp add: thread_step_def Let_def)
    from assms(2) Some p have c: "c < length (fst st)" and v: "fst st ! c \<le> v"
      by (simp_all add: alone_ok_def)
    have "fluence_le (fst st) ((fst st)[c := v])"
      using c v by (auto simp: fluence_le_def nth_list_update)
    moreover have "alone_ok st'" using len by (simp add: alone_ok_def st')
    ultimately show ?thesis by (simp add: st')
  next
    case None
    show ?thesis
    proof (cases "turns (snd st ! 0) < nat (totalmove a)")
      case False
      with None i ne assms(1,2) show ?thesis
        by (simp add: thread_step_def Let_def fluence_le_refl)
    next
      case True
      with None i ne assms(1) obtain t' where l: "load_turn a (fst st) (snd st ! 0) = Inr t'"
        and st': "st' = (fst st, (snd st)[0 := t'])"
        by (auto simp: thread_step_def Let_def split: sum.splits)
      have "\<And>c v. pending t' = Some (c, v) \<Longrightarrow> c < length (fst st) \<and> v - fst st ! c \<ge> 0"
        using load_turn_ok [OF l w assms(4) None] by auto
      then have "alone_ok st'" using len by (auto simp: alone_ok_def st')
      then show ?thesis by (simp add: st' fluence_le_refl)
    qed
  qed
qed

lemma mcx_launch_ok:
  "mcx_launch a sched st = Inr st' \<Longrightarrow> launch_ok st \<Longrightarrow> 0 < f4w (p0 a) \<Longrightarrow>
     launch_ok st' \<and> length (fst st') = length (fst st) \<and> length (snd st') = length (snd st)"
proof (induction sched arbitrary: st)
  case Nil
  then show ?case by simp
next
  case (Cons i sched)
  from Cons.prems(1) obtain m where m: "thread_step a i st = Inr m"
    and r: "mcx_launch a sched m = Inr st'"
    by (auto split: sum.splits)
  have "launch_ok m" using m Cons.prems(2,3) by (rule thread_step_ok)
  with Cons.IH [OF r] Cons.prems(3) thread_step_length [OF m] show ?case by simp
qed

lemma mcx_launch_alone:
  "mcx_launch a sched st = Inr st' \<Longrightarrow> alone_ok st \<Longrightarrow> launch_ok st \<Longrightarrow> 0 < f4w (p0 a) \<Longrightarrow>
     alone_ok st' \<and> fluence_le (fst st) (fst st')"
proof (induction sched arbitrary: st)
  case Nil
  then show ?case by (simp add: fluence_le_refl)
next
  case (Cons i sched)
  from Cons.prems(1) obtain m where m: "thread_step a i st = Inr m"
    and r: "mcx_launch a sched m = Inr st'"
    by (auto split: sum.splits)
  have 1: "alone_ok m" "fluence_le (fst st) (fst m)"
    using thread_step_alone [OF m Cons.prems(2,3,4)] by simp_all
  have "launch_ok m" using m Cons.prems(3,4) by (rule thread_step_ok)
  with Cons.IH [OF r 1(1)] Cons.prems(4) have "alone_ok st'" "fluence_le (fst m) (fst st')"
    by simp_all
  with 1 show ?case by (blast intro: fluence_le_trans)
qed

lemma mcx_launch_append:
  "mcx_launch a (sched @ sched') st =
     (case mcx_launch a sched st of Inl e \<Rightarrow> Inl e | Inr m \<Rightarrow> mcx_launch a sched' m)"
  by (induction sched arbitrary: st) (auto split: sum.splits)

text \<open>
  C5, as amended. Take a launch of the kernel on any number of threads: a shared fluence
  array without negative cells (the driver's is all zero), photons of positive weight
  (the driver's have weight \<open>1\<close>), a source of positive weight, and any schedule of the
  loads and stores of the threads. After any part of the schedule and after any further
  part of it, the array has the same cells and none is negative; and if the launch has one
  thread only, no cell is smaller after the further part than it was before. With two
  threads or more a cell can become smaller, as shown below.
\<close>

theorem launch_fluence:
  assumes "mcx_launch a sched (F, ts) = Inr (F1, ts1)"
    and "mcx_launch a sched' (F1, ts1) = Inr (F2, ts2)"
    and "\<forall>t \<in> set ts. pending t = None \<and> 0 < f4w (npos (regs t))"
    and "0 < f4w (p0 a)"
    and "\<forall>c < length F. 0 \<le> F ! c"
  shows "mcx_launch a (sched @ sched') (F, ts) = Inr (F2, ts2) \<and>
         length F1 = length F \<and> length F2 = length F \<and>
         (\<forall>c < length F. 0 \<le> F1 ! c \<and> 0 \<le> F2 ! c) \<and>
         (length ts = 1 \<longrightarrow> (\<forall>c < length F. F1 ! c \<le> F2 ! c))"
proof -
  have ok: "launch_ok (F, ts)" using assms(3,5) by (simp add: launch_ok_def)
  have 1: "launch_ok (F1, ts1)" "length F1 = length F" "length ts1 = length ts"
    using mcx_launch_ok [OF assms(1) ok assms(4)] by simp_all
  have 2: "launch_ok (F2, ts2)" "length F2 = length F1"
    using mcx_launch_ok [OF assms(2) 1(1) assms(4)] by simp_all
  have app: "mcx_launch a (sched @ sched') (F, ts) = Inr (F2, ts2)"
    using assms(1,2) by (simp add: mcx_launch_append)
  have pos: "\<forall>c < length F. 0 \<le> F1 ! c \<and> 0 \<le> F2 ! c"
    using 1 2 by (simp add: launch_ok_def)
  have alone: "length ts = 1 \<longrightarrow> (\<forall>c < length F. F1 ! c \<le> F2 ! c)"
  proof
    assume l: "length ts = 1"
    then have "ts ! 0 \<in> set ts" by simp
    with assms(3) have "pending (ts ! 0) = None" by blast
    with l have "alone_ok (F, ts)" by (simp add: alone_ok_def)
    then have "alone_ok (F1, ts1)"
      using mcx_launch_alone [OF assms(1) _ ok assms(4)] by simp
    then have "fluence_le F1 F2"
      using mcx_launch_alone [OF assms(2) _ 1(1) assms(4)] by simp
    then show "\<forall>c < length F. F1 ! c \<le> F2 ! c" using 1(2) by (simp add: fluence_le_def)
  qed
  from app 1(2) 2(2) pos alone show ?thesis by simp
qed

text \<open>
  The first turn of a thread of the driver's launch whose first draw is not \<open>0\<close> and at
  most \<open>2\<^sup>3\<^sup>0\<close>.
\<close>

lemma ln_quarter: "3 / 4 < - ln (1 / 4 :: real)"
proof -
  have "exp (3 / 4 :: real) \<le> exp 1" by simp
  also have "\<dots> \<le> 3" by (rule exp_le)
  also have "\<dots> < (4::real)" by simp
  finally have "exp (3 / 4 :: real) < exp (ln 4)" by simp
  then have "3 / 4 < ln (4::real)" by (simp only: exp_less_cancel_iff)
  moreover have "ln (1 / 4 :: real) = - ln 4" by (simp add: ln_div)
  ultimately show ?thesis by simp
qed

lemma draw_flight:
  assumes "0 < unat r" and "unat r \<le> 1073741824"
  shows "0 < float_of_uint r / MAX_MT_RAND"
    and "3 / 4 < - ln (float_of_uint r / MAX_MT_RAND)"
    and "- ln (float_of_uint r / MAX_MT_RAND) \<le> 32"
proof -
  define u where "u = float_of_uint r / MAX_MT_RAND"
  define n where "n = unat r"
  have n: "0 < n" "n \<le> 1073741824" using assms by (simp_all only: n_def)
  have r: "0 < real n" "real n \<le> 1073741824" "1 \<le> real n" using n by simp_all
  have u: "u = real n / 4294967296"
    by (simp only: u_def float_of_uint_def MAX_MT_RAND_def n_def)
  have pos: "0 < u" unfolding u using r(1) by simp
  have le: "u \<le> 1 / 4" unfolding u using r(2) by simp
  have ge: "1 / 2 ^ 32 \<le> u" unfolding u using r(3) by (simp add: field_simps)
  have "ln u \<le> ln (1 / 4)" using pos le by simp
  with ln_quarter have a: "3 / 4 < - ln u" by linarith
  have "ln (1 / 2 ^ 32 :: real) \<le> ln u" using ge pos by (subst ln_le_cancel_iff) simp_all
  moreover have "ln (1 / 2 ^ 32 :: real) = - (32 * ln 2)"
  proof -
    have "ln ((2::real) ^ 32) = real 32 * ln 2" by (rule ln_realpow)
    moreover have "ln (1 / (2::real) ^ 32) = - ln ((2::real) ^ 32)" by (simp add: ln_div)
    ultimately show ?thesis by simp
  qed
  moreover have "ln (2::real) \<le> 2 - 1" by (rule ln_le_minus_one) simp
  ultimately have b: "- ln u \<le> 32" by linarith
  show "0 < float_of_uint r / MAX_MT_RAND" using pos by (simp only: u_def)
  show "3 / 4 < - ln (float_of_uint r / MAX_MT_RAND)" using a by (simp only: u_def)
  show "- ln (float_of_uint r / MAX_MT_RAND) \<le> 32" using b by (simp only: u_def)
qed

lemma launched_thread:
  "launched_thread r =
     \<lparr>regs = \<lparr>npos = float4 10 10 0 1, ndir = float4 0 0 1 0, nlen = float3 0 0 0,
              idx1d = 165120, ran = 0, field = [], mt = (\<lambda>_. r), mti = 0\<rparr>,
      origin = 165120, turns = 0, pending = None\<rparr>"
  by (simp add: launched_thread_def thread_init_def main_photon_def voxel_index_def DIMYZ_def
      DIMY_def DIMZ_def)

lemma launched_flight:
  assumes "0 < unat r" and "unat r \<le> 1073741824"
  shows "flight_phase (main_args 1) (regs (launched_thread r)) = Inr (regs (loaded_thread r v))"
  using draw_flight [OF assms]
  by (simp add: launched_thread loaded_thread_def flight_phase_def scatter_phase_def
      voxel_phase_def main_args_def mt19937s_def logf_def
      length_main_media nth_main_media main_property_def voxel_index_def DIMYZ_def DIMY_def
      DIMZ_def Let_def)

lemma launched_load:
  assumes "0 < unat r" and "unat r \<le> 1073741824" and "165121 < length F"
  shows "load_turn (main_args 1) F (launched_thread r) =
           Inr (loaded_thread r (F ! 165121 + exp (- (9 / 1000))))"
proof -
  have e: "\<not> exits (main_args 1) (regs (loaded_thread r v))" for v
    using draw_flight [OF assms(1,2)]
    by (simp add: exits_def loaded_thread_def main_args_def DIMX_def DIMY_def DIMZ_def)
  have p: "0 < f3x (nlen (regs (loaded_thread r v)))" for v
    using draw_flight [OF assms(1,2)] by (simp add: loaded_thread_def)
  show ?thesis
    using assms(3) e [of 0] p [of 0]
    by (simp add: load_turn_def launched_flight [OF assms(1,2), of 0])
       (simp add: loaded_thread_def launched_thread)
qed

lemma step_load:
  assumes "i < length ts" and "ts ! i = launched_thread r" and "165121 < length F"
    and "0 < unat r" and "unat r \<le> 1073741824"
  shows "thread_step (main_args 1) i (F, ts) =
           Inr (F, ts[i := loaded_thread r (F ! 165121 + exp (- (9 / 1000)))])"
  using assms(1,2) launched_load [OF assms(4,5,3)]
  by (simp add: thread_step_def Let_def) (simp add: launched_thread main_args_def)

lemma step_store:
  assumes "i < length ts" and "ts ! i = loaded_thread r v"
  shows "thread_step a i (F, ts) =
           Inr (F[165121 := v], ts[i := (loaded_thread r v)\<lparr>pending := None\<rparr>])"
  using assms by (simp add: thread_step_def Let_def) (simp add: loaded_thread_def)

theorem launch_fluence_witness:
  "pending (launched_thread 1073741824) = None \<and>
   0 < f4w (npos (regs (launched_thread 1073741824))) \<and>
   0 < f4w (p0 (main_args 1)) \<and>
   mcx_launch (main_args 1) [0] (main_field, [launched_thread 1073741824]) =
     Inr (main_field, [loaded_thread 1073741824 (exp (- (9 / 1000)))]) \<and>
   mcx_launch (main_args 1) [0] (main_field, [loaded_thread 1073741824 (exp (- (9 / 1000)))]) =
     Inr (main_field[165121 := exp (- (9 / 1000))],
          [(loaded_thread 1073741824 (exp (- (9 / 1000))))\<lparr>pending := None\<rparr>]) \<and>
   mcx_launch (main_args 1) ([0] @ [0]) (main_field, [launched_thread 1073741824]) =
     Inr (main_field[165121 := exp (- (9 / 1000))],
          [(loaded_thread 1073741824 (exp (- (9 / 1000))))\<lparr>pending := None\<rparr>]) \<and>
   0 \<le> main_field[165121 := exp (- (9 / 1000))] ! 165121 \<and>
   main_field ! 165121 \<le> main_field[165121 := exp (- (9 / 1000))] ! 165121"
proof -
  let ?e = "exp (- (9 / 1000) :: real)"
  let ?r = "1073741824 :: 32 word"
  have 1: "mcx_launch (main_args 1) [0] (main_field, [launched_thread ?r]) =
     Inr (main_field, [loaded_thread ?r ?e])"
    using step_load [of 0 "[launched_thread ?r]" ?r main_field]
    by (simp add: length_main_field nth_main_field)
  have 2: "mcx_launch (main_args 1) [0] (main_field, [loaded_thread ?r ?e]) =
     Inr (main_field[165121 := ?e], [(loaded_thread ?r ?e)\<lparr>pending := None\<rparr>])"
    using step_store [of 0 "[loaded_thread ?r ?e]" ?r ?e "main_args 1" main_field] by simp
  have 3: "\<forall>t \<in> set [launched_thread ?r]. pending t = None \<and> 0 < f4w (npos (regs t))"
    by (simp add: launched_thread)
  have 4: "0 < f4w (p0 (main_args 1))" by (simp add: main_args_def)
  have 5: "\<forall>c < length main_field. 0 \<le> main_field ! c"
    by (simp add: length_main_field nth_main_field)
  from launch_fluence [OF 1 2 3 4 5] show ?thesis
    using 1 2 3 4 by (simp add: length_main_field nth_main_field)
qed

lemma three_draws:
  "three_draws 0 = (\<lambda>_. 1073741824)" "three_draws (Suc 0) = (\<lambda>_. 1000000000)"
  "three_draws (Suc (Suc 0)) = (\<lambda>_. 900000000)" "three_draws 2 = (\<lambda>_. 900000000)"
  by (rule ext, simp add: three_draws_def)+

lemma main_threads_three:
  "main_threads three_draws ! 0 = launched_thread 1073741824"
  "main_threads three_draws ! Suc 0 = launched_thread 1000000000"
  "main_threads three_draws ! 2 = launched_thread 900000000"
  by (simp_all add: main_threads_def MAX_N_def launched_thread_def three_draws
      del: upt_rec_numeral)

lemma length_main_threads: "length (main_threads d) = 1024"
  by (simp add: main_threads_def MAX_N_def del: upt_rec_numeral)

lemma three_threads_run:
  "mcx_launch (main_args 1) [0, 2, 2, 1, 1] (main_field, main_threads three_draws) =
     Inr (main_field[165121 := exp (- (9 / 1000)),
                     165121 := exp (- (9 / 1000)) + exp (- (9 / 1000))],
          (main_threads three_draws)
            [0 := loaded_thread 1073741824 (exp (- (9 / 1000))),
             2 := loaded_thread 900000000 (exp (- (9 / 1000))),
             2 := (loaded_thread 900000000 (exp (- (9 / 1000))))\<lparr>pending := None\<rparr>,
             1 := loaded_thread 1000000000 (exp (- (9 / 1000)) + exp (- (9 / 1000))),
             1 := (loaded_thread 1000000000 (exp (- (9 / 1000)) + exp (- (9 / 1000))))
                    \<lparr>pending := None\<rparr>])"
proof -
  let ?e = "exp (- (9 / 1000) :: real)"
  let ?T = "main_threads three_draws"
  let ?A = "loaded_thread 1073741824"
  let ?B = "loaded_thread 1000000000"
  let ?C = "loaded_thread 900000000"
  have 1: "thread_step (main_args 1) 0 (main_field, ?T) = Inr (main_field, ?T[0 := ?A ?e])"
    using step_load [of 0 ?T 1073741824 main_field]
    by (simp add: length_main_threads main_threads_three length_main_field nth_main_field)
  have 2: "thread_step (main_args 1) 2 (main_field, ?T[0 := ?A ?e]) =
      Inr (main_field, ?T[0 := ?A ?e, 2 := ?C ?e])"
    using step_load [of 2 "?T[0 := ?A ?e]" 900000000 main_field]
    by (simp add: length_main_threads main_threads_three length_main_field nth_main_field)
  have 3: "thread_step (main_args 1) 2 (main_field, ?T[0 := ?A ?e, 2 := ?C ?e]) =
      Inr (main_field[165121 := ?e],
           ?T[0 := ?A ?e, 2 := ?C ?e, 2 := (?C ?e)\<lparr>pending := None\<rparr>])"
    using step_store [of 2 "?T[0 := ?A ?e, 2 := ?C ?e]" 900000000 ?e]
    by (simp add: length_main_threads)
  have 4: "thread_step (main_args 1) 1
        (main_field[165121 := ?e],
         ?T[0 := ?A ?e, 2 := ?C ?e, 2 := (?C ?e)\<lparr>pending := None\<rparr>]) =
      Inr (main_field[165121 := ?e],
           ?T[0 := ?A ?e, 2 := ?C ?e, 2 := (?C ?e)\<lparr>pending := None\<rparr>,
              1 := ?B (?e + ?e)])"
    using step_load [of 1 "?T[0 := ?A ?e, 2 := ?C ?e, 2 := (?C ?e)\<lparr>pending := None\<rparr>]"
        1000000000 "main_field[165121 := ?e]"]
    by (simp add: length_main_threads main_threads_three length_main_field)
  have 5: "thread_step (main_args 1) 1
        (main_field[165121 := ?e],
         ?T[0 := ?A ?e, 2 := ?C ?e, 2 := (?C ?e)\<lparr>pending := None\<rparr>,
            1 := ?B (?e + ?e)]) =
      Inr (main_field[165121 := ?e, 165121 := ?e + ?e],
           ?T[0 := ?A ?e, 2 := ?C ?e, 2 := (?C ?e)\<lparr>pending := None\<rparr>,
              1 := ?B (?e + ?e), 1 := (?B (?e + ?e))\<lparr>pending := None\<rparr>])"
    using step_store [of 1 "?T[0 := ?A ?e, 2 := ?C ?e, 2 := (?C ?e)\<lparr>pending := None\<rparr>,
            1 := ?B (?e + ?e)]" 1000000000 "?e + ?e"]
    by (simp add: length_main_threads)
  show ?thesis by (simp only: mcx_launch.simps 1 2 3 4 5 sum.case)
qed

text \<open>
  C5 as stated fails on the driver's launch: an all-zero array and \<open>1024\<close> photons of weight
  \<open>1\<close> at \<open>p0\<close>. Take three threads whose first draws are \<open>2\<^sup>3\<^sup>0\<close>, \<open>10\<^sup>9\<close> and \<open>9 \<sqdot> 10\<^sup>8\<close>:
  each moves one step into the voxel \<open>(10, 10, 1)\<close>, cell \<open>165121\<close>, and adds its weight
  \<open>e = exp (-0.009)\<close> there. Thread \<open>0\<close> loads the cell, which holds \<open>0\<close>; thread \<open>2\<close> loads
  it and stores \<open>e\<close>; thread \<open>1\<close> loads it and stores \<open>e + e\<close>; then thread \<open>0\<close> stores its
  sum \<open>0 + e\<close>. The cell holds \<open>e + e\<close> after the first five steps and \<open>e\<close> after the sixth.
\<close>

theorem lost_update:
  "map_sum id (\<lambda>st. fst st ! 165121)
     (mcx_launch (main_args 1) [0, 2, 2, 1, 1] (main_field, main_threads three_draws)) =
     Inr (exp (- (9 / 1000)) + exp (- (9 / 1000))) \<and>
   map_sum id (\<lambda>st. fst st ! 165121)
     (mcx_launch (main_args 1) ([0, 2, 2, 1, 1] @ [0]) (main_field, main_threads three_draws)) =
     Inr (exp (- (9 / 1000))) \<and>
   exp (- (9 / 1000)) < exp (- (9 / 1000)) + exp (- (9 / 1000) :: real)"
proof -
  let ?e = "exp (- (9 / 1000) :: real)"
  let ?T = "main_threads three_draws"
  let ?A = "loaded_thread 1073741824"
  let ?B = "loaded_thread 1000000000"
  let ?C = "loaded_thread 900000000"
  let ?ts = "?T[0 := ?A ?e, 2 := ?C ?e, 2 := (?C ?e)\<lparr>pending := None\<rparr>,
              1 := ?B (?e + ?e), 1 := (?B (?e + ?e))\<lparr>pending := None\<rparr>]"
  have 6: "thread_step (main_args 1) 0 (main_field[165121 := ?e, 165121 := ?e + ?e], ?ts) =
      Inr (main_field[165121 := ?e, 165121 := ?e + ?e, 165121 := ?e],
           ?ts[0 := (?A ?e)\<lparr>pending := None\<rparr>])"
    using step_store [of 0 ?ts 1073741824 ?e]
    by (simp add: length_main_threads)
  have a: "mcx_launch (main_args 1) ([0, 2, 2, 1, 1] @ [0]) (main_field, ?T) =
      Inr (main_field[165121 := ?e, 165121 := ?e + ?e, 165121 := ?e],
           ?ts[0 := (?A ?e)\<lparr>pending := None\<rparr>])"
    by (subst mcx_launch_append, subst three_threads_run) (simp only: sum.case mcx_launch.simps 6)
  show ?thesis
    by (simp only: a three_threads_run) (simp add: length_main_field)
qed

subsection \<open>The kernel returns\<close>

text \<open>
  The theorems on the kernel function read in exact arithmetic are about micro-steps that
  return. In that reading every micro-step returns on well-formed arguments, whatever the
  photon does, as long as no draw is \<open>0\<close> (whose logarithm is not a real number). This
  belongs to the exact reading: in single precision the cosine of lines 114 to 116 is above
  \<open>1\<close> for the largest draws, as shown with the rotation in single precision.
\<close>

text \<open>
  In exact arithmetic, for an anisotropy in \<open>(-1, 1)\<close> other than \<open>0\<close> the cosine is in
  \<open>[-1, 1]\<close>, for every draw.
\<close>

lemma hg_costheta_range:
  assumes "- 1 < g" "g < 1" "g \<noteq> 0"
  shows "\<exists>c. hg_costheta g (g * g) (2 * g) r = Inr c \<and> - 1 \<le> c \<and> c \<le> 1"
proof -
  define u where "u = float_of_uint r / MAX_MT_RAND"
  define d where "d = 1 - g + 2 * g * u"
  define q where "q = (1 - g * g) / d"
  define c where "c = (1 + g * g - q * q) / (2 * g)"
  have u: "0 \<le> u" "u < 1"
    using float_of_uint_bounds [of r] by (simp_all add: u_def MAX_MT_RAND_def)
  have dbounds: "1 - \<bar>g\<bar> \<le> d \<and> d \<le> 1 + \<bar>g\<bar>"
  proof (cases "0 \<le> g")
    case True
    have "0 \<le> g * u" using True u by simp
    moreover have "g * u \<le> g * 1" using True u by (intro mult_left_mono) simp_all
    ultimately show ?thesis using True by (simp add: d_def)
  next
    case False
    have "g * u \<le> 0" using False u by (simp add: mult_nonpos_nonneg)
    moreover have "g * 1 \<le> g * u" using False u by (intro mult_left_mono_neg) simp_all
    ultimately show ?thesis using False by (simp add: d_def)
  qed
  then have dlo: "1 - \<bar>g\<bar> \<le> d" and dhi: "d \<le> 1 + \<bar>g\<bar>" by simp_all
  have ag: "\<bar>g\<bar> < 1" using assms by (simp add: abs_less_iff)
  have dpos: "0 < d" using dlo ag by linarith
  have fact: "1 - g * g = (1 - \<bar>g\<bar>) * (1 + \<bar>g\<bar>)" by (simp add: algebra_simps abs_if)
  have qhi: "q \<le> 1 + \<bar>g\<bar>"
  proof -
    have "(1 - \<bar>g\<bar>) * (1 + \<bar>g\<bar>) \<le> d * (1 + \<bar>g\<bar>)"
      using dlo by (intro mult_right_mono) auto
    then show ?thesis using dpos by (simp add: q_def fact pos_divide_le_eq mult.commute)
  qed
  have qlo: "1 - \<bar>g\<bar> \<le> q"
  proof -
    have "(1 - \<bar>g\<bar>) * d \<le> (1 - \<bar>g\<bar>) * (1 + \<bar>g\<bar>)"
      using dhi ag by (intro mult_left_mono) auto
    then show ?thesis using dpos by (simp add: q_def fact pos_le_divide_eq)
  qed
  have qq_hi: "q * q \<le> (1 + \<bar>g\<bar>) * (1 + \<bar>g\<bar>)"
    using qhi qlo ag by (intro mult_mono) auto
  have qq_lo: "(1 - \<bar>g\<bar>) * (1 - \<bar>g\<bar>) \<le> q * q"
    using qlo ag by (intro mult_mono) auto
  have c_bounds: "- 1 \<le> c \<and> c \<le> 1"
  proof (cases "0 < g")
    case True
    then have "\<bar>g\<bar> = g" by simp
    with qq_hi qq_lo have "- (2 * g) \<le> 1 + g * g - q * q" "1 + g * g - q * q \<le> 2 * g"
      by (simp_all add: algebra_simps)
    then show ?thesis using True by (simp add: c_def pos_le_divide_eq pos_divide_le_eq)
  next
    case False
    with assms(3) have neg: "g < 0" by simp
    then have "\<bar>g\<bar> = - g" by simp
    with qq_hi qq_lo have "2 * g \<le> 1 + g * g - q * q" "1 + g * g - q * q \<le> - (2 * g)"
      by (simp_all add: algebra_simps)
    then show ?thesis using neg by (simp add: c_def neg_le_divide_eq neg_divide_le_eq)
  qed
  have "hg_costheta g (g * g) (2 * g) r = Inr c"
    using dpos assms(3)
    by (simp add: hg_costheta_def GPUDIV_def Let_def c_def q_def d_def u_def)
  with c_bounds show ?thesis by blast
qed


lemma logf_draw:
  assumes "r \<noteq> 0"
  shows "\<exists>l. logf (float_of_uint r / MAX_MT_RAND) = Inr l \<and> l < 0"
proof -
  have "unat r \<noteq> 0" using assms by (simp add: unat_eq_0)
  then have "0 < float_of_uint r" by (simp only: float_of_uint_def of_nat_0_less_iff)
  moreover have "float_of_uint r < 4294967296" using float_of_uint_bounds [of r] by simp
  ultimately have "0 < float_of_uint r / MAX_MT_RAND" "float_of_uint r / MAX_MT_RAND < 1"
    by (simp_all add: MAX_MT_RAND_def)
  then show ?thesis by (simp add: logf_def)
qed

lemma scatter_phase_returns:
  assumes "kernel_ok a" "\<forall>i. mt s i \<noteq> 0"
  shows "\<exists>s1. scatter_phase a s = Inr s1 \<and> 0 < f3x (nlen s1) \<and> idx1d s1 = idx1d s \<and>
     field s1 = field s \<and> mt s1 = mt s"
proof (cases "f3x (nlen s) \<le> 0")
  case False
  then show ?thesis by (simp add: scatter_phase_def)
next
  case True
  obtain l where l: "logf (float_of_uint (mt s (mti s)) / MAX_MT_RAND) = Inr l" "l < 0"
    using logf_draw assms(2) by blast
  show ?thesis
  proof (cases "f4w (npos s) < 1")
    case False
    with True l show ?thesis by (simp add: scatter_phase_def mt19937s_def Let_def)
  next
    case w: True
    from assms(1) have g: "gg a \<noteq> 0" "- 1 < gg a" "gg a < 1"
      and g2: "gg2 a = gg a * gg a" "ggx2 a = 2 * gg a"
      by (simp_all add: kernel_ok_def)
    obtain c where c: "hg_costheta (gg a) (gg2 a) (ggx2 a) (mt s (Suc (Suc (mti s)))) = Inr c"
      "- 1 \<le> c" "c \<le> 1"
      using hg_costheta_range [OF g(2,3,1)] g2 by metis
    then have "acosf c = Inr (arccos c)" by (simp add: acosf_def)
    with True w l c show ?thesis by (simp add: scatter_phase_def mt19937s_def Let_def)
  qed
qed

lemma voxel_phase_returns:
  assumes "0 \<le> idx1d s" "idx1d s < int (length (media a))" "0 < f3x (nlen s)"
  shows "\<exists>s2. voxel_phase a s = Inr s2 \<and> field s2 = field s \<and> mt s2 = mt s \<and>
     (idx1d s2 = idx1d s \<or> idx1d s2 = voxel_index (npos s2))"
proof -
  define pr where "pr = gproperty a (media a ! nat (idx1d s))"
  show ?thesis
  proof (cases "minstep a * f2y pr > f3x (nlen s)")
    case True
    with assms(3) have "f2y pr \<noteq> 0" by auto
    with True assms(1,2) show ?thesis
      by (simp add: voxel_phase_def Let_def pr_def GPUDIV_def)
  next
    case False
    with assms(1,2) show ?thesis by (simp add: voxel_phase_def Let_def pr_def)
  qed
qed

lemma voxel_index_range:
  assumes "0 \<le> f4x p" "f4x p < 128" "0 \<le> f4y p" "f4y p < 128" "0 \<le> f4z p" "f4z p < 128"
  shows "0 \<le> voxel_index p \<and> voxel_index p < DIMXYZ"
proof -
  define i j k where "i = \<lfloor>f4x p\<rfloor>" and "j = \<lfloor>f4y p\<rfloor>" and "k = \<lfloor>f4z p\<rfloor>"
  have "0 \<le> i" "i \<le> 127" "0 \<le> j" "j \<le> 127" "0 \<le> k" "k \<le> 127"
    using assms by (simp_all add: i_def j_def k_def floor_le_iff le_floor_iff)
  moreover have "voxel_index p = i * 16384 + j * 128 + k"
    by (simp add: voxel_index_def i_def j_def k_def DIMYZ_def DIMY_def DIMZ_def)
  ultimately show ?thesis
    by (simp add: DIMXYZ_def DIMX_def DIMY_def DIMZ_def)
qed

lemma boundary_phase_returns:
  assumes "kernel_ok a" "int (length (field m)) = DIMXYZ" "0 \<le> io" "io < DIMXYZ"
    and "(0 \<le> idx1d m \<and> idx1d m < DIMXYZ) \<or> idx1d m = voxel_index (npos m)"
  shows "\<exists>s'. boundary_phase a io m = Inr s' \<and> 0 \<le> idx1d s' \<and> idx1d s' < DIMXYZ \<and>
     length (field s') = length (field m) \<and> mt s' = mt m"
proof (cases "exits a m")
  case True
  with assms(3,4) show ?thesis by (simp add: boundary_phase_def)
next
  case False
  with assms(1) have "0 \<le> f4x (npos m)" "f4x (npos m) < 128" "0 \<le> f4y (npos m)"
    "f4y (npos m) < 128" "0 \<le> f4z (npos m)" "f4z (npos m) < 128"
    by (simp_all add: exits_def kernel_ok_def DIMX_def DIMY_def DIMZ_def)
  then have "0 \<le> voxel_index (npos m) \<and> voxel_index (npos m) < DIMXYZ"
    by (rule voxel_index_range)
  with assms(5) have "0 \<le> idx1d m" "idx1d m < DIMXYZ" by auto
  with False assms(2) show ?thesis by (simp add: boundary_phase_def)
qed

lemma micro_step_returns:
  assumes "kernel_ok a" "photon_ok s" "0 \<le> io" "io < DIMXYZ"
  shows "\<exists>s'. micro_step a io s = Inr s' \<and> photon_ok s'"
proof -
  from assms(2) have s: "0 \<le> idx1d s" "idx1d s < DIMXYZ" "int (length (field s)) = DIMXYZ"
    "\<forall>i. mt s i \<noteq> 0"
    by (simp_all add: photon_ok_def)
  from assms(1) have med: "int (length (media a)) = DIMXYZ" by (simp add: kernel_ok_def)
  obtain s1 where 1: "scatter_phase a s = Inr s1" "0 < f3x (nlen s1)" "idx1d s1 = idx1d s"
    "field s1 = field s" "mt s1 = mt s"
    using scatter_phase_returns [OF assms(1) s(4)] by blast
  obtain s2 where 2: "voxel_phase a s1 = Inr s2" "field s2 = field s1" "mt s2 = mt s1"
    "idx1d s2 = idx1d s1 \<or> idx1d s2 = voxel_index (npos s2)"
    using voxel_phase_returns [of s1 a] 1 s med by auto
  have "(0 \<le> idx1d s2 \<and> idx1d s2 < DIMXYZ) \<or> idx1d s2 = voxel_index (npos s2)"
    using 2(4) 1(3) s by auto
  moreover have "int (length (field s2)) = DIMXYZ" using 2(2) 1(4) s(3) by simp
  ultimately obtain s' where 3: "boundary_phase a io s2 = Inr s'" "0 \<le> idx1d s'"
    "idx1d s' < DIMXYZ" "length (field s') = length (field s2)" "mt s' = mt s2"
    using boundary_phase_returns [OF assms(1) _ assms(3,4), of s2] by blast
  have "micro_step a io s = Inr s'"
    using 1(1) 2(1) 3(1) by (simp add: micro_step_def flight_phase_def)
  moreover have "photon_ok s'"
    using 3 2 1 s by (simp add: photon_ok_def)
  ultimately show ?thesis by blast
qed

lemma micro_steps_return:
  assumes "kernel_ok a" "0 \<le> io" "io < DIMXYZ"
  shows "photon_ok s \<Longrightarrow> \<exists>s'. micro_steps a io n s = Inr s' \<and> photon_ok s'"
proof (induction n arbitrary: s)
  case 0
  then show ?case by simp
next
  case (Suc n)
  obtain m where m: "micro_step a io s = Inr m" "photon_ok m"
    using micro_step_returns [OF assms(1) Suc.prems assms(2,3)] by blast
  obtain s' where "micro_steps a io n m = Inr s'" "photon_ok s'"
    using Suc.IH [OF m(2)] by blast
  with m show ?case by simp
qed

lemma main_args_ok: "kernel_ok (main_args tm)"
  by (simp add: kernel_ok_def main_args_def length_main_media DIMXYZ_def DIMX_def DIMY_def DIMZ_def)

lemma mcx_main_loop_returns:
  assumes "kernel_ok a" "int (length (field s)) = DIMXYZ" "\<forall>i. mt s i \<noteq> 0"
    and "0 \<le> f4x (npos s)" "f4x (npos s) < 128" "0 \<le> f4y (npos s)" "f4y (npos s) < 128"
      "0 \<le> f4z (npos s)" "f4z (npos s) < 128"
  shows "\<exists>s'. mcx_main_loop a s = Inr s'"
proof -
  have i: "0 \<le> voxel_index (npos s) \<and> voxel_index (npos s) < DIMXYZ"
    using assms(4-9) by (rule voxel_index_range)
  then have "photon_ok (s\<lparr>idx1d := voxel_index (npos s)\<rparr>)"
    using assms(2,3) by (simp add: photon_ok_def)
  with assms(1) i obtain s' where
    "micro_steps a (voxel_index (npos s)) (nat (totalmove a)) (s\<lparr>idx1d := voxel_index (npos s)\<rparr>)
      = Inr s'"
    using micro_steps_return [of a "voxel_index (npos s)"] by blast
  then show ?thesis by (simp add: mcx_main_loop_def Let_def)
qed

section \<open>Proofs: the Mie routines\<close>

subsection \<open>Sequencing, array accesses and loops\<close>

lemma seq_Inr_iff: "seq m f = Inr v \<longleftrightarrow> (\<exists>u. m = Inr u \<and> f u = Inr v)"
  by (cases m) (simp_all add: seq_def)

lemma seq_Inr [simp]: "seq (Inr u) f = f u"
  by (simp add: seq_def)

lemma seq_Inl [simp]: "seq (Inl e) f = Inl e"
  by (simp add: seq_def)

lemma rd_Inr_iff: "rd xs i = Inr v \<longleftrightarrow> 0 \<le> i \<and> i < int (length xs) \<and> v = xs ! nat i"
  by (auto simp: rd_def)

lemma wr_Inr_iff: "wr xs i v = Inr ys \<longleftrightarrow> 0 \<le> i \<and> i < int (length xs) \<and> ys = xs[nat i := v]"
  by (auto simp: wr_def)

lemma for_loop_append:
  "for_loop (xs @ ys) body s = seq (for_loop xs body s) (for_loop ys body)"
  by (induction xs arbitrary: s) (auto simp: seq_def split: sum.splits)

lemma for_loop_single: "for_loop [i] body s = body i s"
  by (cases "body i s") simp_all

lemma for_loop_snoc: "for_loop (xs @ [i]) body s = seq (for_loop xs body s) (body i)"
proof -
  have "for_loop [i] body = body i" by (rule ext) (rule for_loop_single)
  then show ?thesis by (simp only: for_loop_append)
qed

lemma for_loop_upt_Suc:
  "for_loop [0..<Suc n] body s = seq (for_loop [0..<n] body s) (body n)"
  by (simp only: upt_Suc_append [OF le0] for_loop_snoc)

lemma for_loop_upt_invariant:
  assumes "for_loop [0..<n] body s0 = Inr s"
    and "I 0 s0"
    and "\<And>i t t'. i < n \<Longrightarrow> I i t \<Longrightarrow> body i t = Inr t' \<Longrightarrow> I (Suc i) t'"
  shows "I n s"
  using assms
proof (induction n arbitrary: s)
  case 0
  then show ?case by simp
next
  case (Suc n)
  from Suc.prems(1) obtain t where t: "for_loop [0..<n] body s0 = Inr t"
    and s: "body n t = Inr s"
    by (auto simp only: for_loop_upt_Suc seq_Inr_iff)
  have "I n t" using t Suc.prems(2)
  proof (rule Suc.IH)
    fix i u u' assume "i < n" "I i u" "body i u = Inr u'"
    then show "I (Suc i) u'" using Suc.prems(3) [of i u u'] by simp
  qed
  then show ?case using s Suc.prems(3) [of n t s] by simp
qed


lemma mueller_ok_mueller: "mueller_ok (mueller a1 a2)"
proof -
  have "0 \<le> cmod a1 * cmod a1" "0 \<le> cmod a2 * cmod a2" by simp_all
  then show ?thesis by (simp add: mueller_ok_def mueller_def abs_le_iff)
qed


lemma mueller_upto_step:
  assumes "mueller_upto i sm" "wr sm (int i) (mueller a1 a2) = Inr sm'"
  shows "mueller_upto (Suc i) sm'"
  using assms mueller_ok_mueller [of a1 a2]
  by (auto simp: mueller_upto_def wr_Inr_iff nth_list_update less_Suc_eq)

lemma Mie_smatrix_ok:
  assumes "Mie_smatrix NANGLES s1 s2 smatrix = Inr sm"
  shows "mueller_upto NANGLES sm"
proof (rule for_loop_upt_invariant [where I = mueller_upto, OF assms [unfolded Mie_smatrix_def]])
  show "mueller_upto 0 smatrix" by (simp add: mueller_upto_def)
next
  fix i t t'
  assume "mueller_upto i t"
    and "seq (rd s1 (int i)) (\<lambda>a1. seq (rd s2 (int i)) (\<lambda>a2. wr t (int i) (mueller a1 a2))) = Inr t'"
  then show "mueller_upto (Suc i) t'"
    by (auto simp: seq_Inr_iff dest: mueller_upto_step)
qed

lemma small_Mie_ok:
  assumes "small_Mie NANGLES x mx mu smatrix = Inr out"
  shows "mueller_upto NANGLES (out_smatrix out)"
proof -
  from assms obtain f where
    loop: "for_loop [0..<NANGLES] (\<lambda>j sm. seq (rd mu (int j)) (f j sm)) smatrix = Inr (out_smatrix out)"
    and f: "\<And>j sm muj. \<exists>a1 a2. f j sm muj = wr sm (int j) (mueller a1 a2)"
    unfolding small_Mie_def Let_def seq_Inr_iff by fastforce
  show ?thesis
  proof (rule for_loop_upt_invariant [where I = mueller_upto, OF loop])
    show "mueller_upto 0 smatrix" by (simp add: mueller_upto_def)
  next
    fix i t t'
    assume i: "mueller_upto i t" and "seq (rd mu (int i)) (f i t) = Inr t'"
    then obtain muj where "f i t muj = Inr t'" by (auto simp: seq_Inr_iff)
    with f [of i t muj] i show "mueller_upto (Suc i) t'"
      by (metis mueller_upto_step)
  qed
qed

lemma no_raise_Inr_iff: "no_raise r = Inr v \<longleftrightarrow> r = Inr v"
  by (cases r) (simp_all add: no_raise_def)

lemma Mie_main_ok:
  assumes "Mie_main NANGLES x mx mu smatrix = Some (Inr out)"
  shows "mueller_upto NANGLES (out_smatrix out)"
proof -
  from assms obtain s1 s2 where "Mie_smatrix NANGLES s1 s2 smatrix = Inr (out_smatrix out)"
    unfolding Mie_main_def Let_def
    by (auto simp: seq_Inr_iff split: option.splits sum.splits)
  then show ?thesis by (rule Mie_smatrix_ok)
qed

text \<open>
  C7. When \<^verbatim>\<open>Mie\<close> returns (through its main part or through \<^verbatim>\<open>small_Mie\<close>), and when
  \<^verbatim>\<open>small_Mie\<close> itself returns, \<^verbatim>\<open>smatrix\<close> has at least \<open>NANGLES\<close> cells and for every angle
  index \<open>k < NANGLES\<close> its entries satisfy \<open>S11[k] \<ge> 0\<close> and \<open>|S12[k]| \<le> S11[k]\<close>.
\<close>

theorem Mie_mueller_bounds:
  "(Mie NANGLES x mx mu smatrix = Some (Inr out) \<longrightarrow>
      NANGLES \<le> length (out_smatrix out) \<and>
      (\<forall>k < NANGLES. 0 \<le> f4x (out_smatrix out ! k) \<and>
         \<bar>f4y (out_smatrix out ! k)\<bar> \<le> f4x (out_smatrix out ! k))) \<and>
   (small_Mie NANGLES x mx mu smatrix = Inr out \<longrightarrow>
      NANGLES \<le> length (out_smatrix out) \<and>
      (\<forall>k < NANGLES. 0 \<le> f4x (out_smatrix out ! k) \<and>
         \<bar>f4y (out_smatrix out ! k)\<bar> \<le> f4x (out_smatrix out ! k)))"
proof (intro conjI impI)
  assume "Mie NANGLES x mx mu smatrix = Some (Inr out)"
  then have "small_Mie NANGLES x mx mu smatrix = Inr out \<or>
      Mie_main NANGLES x mx mu smatrix = Some (Inr out)"
    by (auto simp: Mie_def Let_def no_raise_Inr_iff split: if_splits)
  then have ok: "mueller_upto NANGLES (out_smatrix out)"
    using small_Mie_ok Mie_main_ok by blast
  from ok show "NANGLES \<le> length (out_smatrix out)" by (simp add: mueller_upto_def)
  from ok show "\<forall>k < NANGLES. 0 \<le> f4x (out_smatrix out ! k) \<and>
         \<bar>f4y (out_smatrix out ! k)\<bar> \<le> f4x (out_smatrix out ! k)"
    by (simp add: mueller_upto_def mueller_ok_def)
next
  assume "small_Mie NANGLES x mx mu smatrix = Inr out"
  then have ok: "mueller_upto NANGLES (out_smatrix out)" by (rule small_Mie_ok)
  from ok show "NANGLES \<le> length (out_smatrix out)" by (simp add: mueller_upto_def)
  from ok show "\<forall>k < NANGLES. 0 \<le> f4x (out_smatrix out ! k) \<and>
         \<bar>f4y (out_smatrix out ! k)\<bar> \<le> f4x (out_smatrix out ! k)"
    by (simp add: mueller_upto_def mueller_ok_def)
qed

lemma small_Mie_T_zero_iff:
  "cmod a * cmod a + cmod b * cmod b + 5 * cmod c * cmod c / 3 = 0 \<longleftrightarrow> a = 0 \<and> b = 0 \<and> c = 0"
proof -
  define A B C where "A = cmod a * cmod a" and "B = cmod b * cmod b" and "C = cmod c * cmod c"
  have nn: "0 \<le> A" "0 \<le> B" "0 \<le> C" by (simp_all add: A_def B_def C_def)
  have z: "A = 0 \<longleftrightarrow> a = 0" "B = 0 \<longleftrightarrow> b = 0" "C = 0 \<longleftrightarrow> c = 0"
    by (simp_all add: A_def B_def C_def)
  have "cmod a * cmod a + cmod b * cmod b + 5 * cmod c * cmod c / 3 = A + B + 5 * C / 3"
    by (simp add: A_def B_def C_def)
  also have "\<dots> = 0 \<longleftrightarrow> A = 0 \<and> B = 0 \<and> C = 0" using nn by arith
  finally show ?thesis using z by simp
qed

lemma cmod_Complex_real: "cmod (Complex a 0) = \<bar>a\<bar>"
  by (simp add: cmod_def)

lemma small_Mie_returns: "\<exists>out. small_Mie 1 (1 / 20) (3 / 2) [1] [float4 0 0 0 0] = Inr out"
  by (simp add: small_Mie_def Let_def cdiv_def fdiv_def rd_def wr_def seq_def Complex_eq_0 small_Mie_T_zero_iff)

theorem Mie_mueller_bounds_witness:
  "\<exists>out. Mie 1 (1 / 20) (3 / 2) [1] [float4 0 0 0 0] = Some (Inr out) \<and>
     small_Mie 1 (1 / 20) (3 / 2) [1] [float4 0 0 0 0] = Inr out \<and>
     0 \<le> f4x (out_smatrix out ! 0) \<and> \<bar>f4y (out_smatrix out ! 0)\<bar> \<le> f4x (out_smatrix out ! 0)"
proof -
  obtain out where s: "small_Mie 1 (1 / 20) (3 / 2) [1] [float4 0 0 0 0] = Inr out"
    using small_Mie_returns by blast
  then have m: "Mie 1 (1 / 20) (3 / 2) [1] [float4 0 0 0 0] = Some (Inr out)"
    by (simp add: Mie_def Let_def no_raise_def cmod_Complex_real)
  show ?thesis
    using Mie_mueller_bounds [of 1 "1 / 20" "3 / 2" "[1]" "[float4 0 0 0 0]" out] s m by auto
qed

subsection \<open>The Lentz iteration\<close>


lemmas Lentz_loop_induct = Lentz_loop.raw_induct [rotated 1, consumes 1, case_names turn]

lemma Lentz_loop_turns: "Lentz_loop v = Some r \<Longrightarrow> \<exists>k. Lentz_turns k v = Some r"
proof (induction rule: Lentz_loop_induct)
  case (turn loop v r)
  show ?case
  proof (cases "Lentz_body v")
    case (Inl e)
    with turn(2) have "r = Inl e" by simp
    with Inl have "Lentz_turns 0 v = Some r" by simp
    then show ?thesis ..
  next
    case (Inr v')
    show ?thesis
    proof (cases "Lentz_continue v'")
      case True
      with Inr turn(2) have "loop v' = Some r" by simp
      then obtain k where "Lentz_turns k v' = Some r" using turn(1) by blast
      with Inr True have "Lentz_turns (Suc k) v = Some r" by simp
      then show ?thesis ..
    next
      case False
      with Inr turn(2) have "r = Inr v'" by simp
      with Inr False have "Lentz_turns 0 v = Some r" by simp
      then show ?thesis ..
    qed
  qed
qed













subsection \<open>The Lentz iteration at \<open>z = \<pi>\<close>\<close>

text \<open>
  Outside \<open>|z| \<le> n + 1/2\<close> the iteration as written need not come to an end. In exact
  arithmetic it never does at \<open>z = \<pi>\<close>, \<open>n = 1\<close>: \<open>\<pi>\<close> is a zero of \<open>j\<^sub>0\<close>, the numerators
  follow the solution \<open>sbj\<close> of the recurrence, which is the one that does not grow, the
  denominators follow \<open>sbn\<close>, which grows, and \<open>ratio\<close> stays between \<open>0\<close> and \<open>13/16\<close>. This is a
  statement on the recurrence: no \<^verbatim>\<open>double\<close> is \<open>\<pi>\<close>, and rounding takes the computed
  numerators off the solution that does not grow.
\<close>

lemma sbj_zero: "sbj m 0 = 0"
  by (induction m "0::real" rule: sbj.induct) simp_all

lemma dfact_pos: "0 < dfact m"
  by (induction m) simp_all

lemma sbj_deriv2:
  "DERIV (sbj (Suc m)) x :> x * sbj m x \<and> DERIV (sbj (Suc (Suc m))) x :> x * sbj (Suc m) x"
proof (induction m)
  case 0
  have e1: "sbj (Suc 0) = (\<lambda>x. sin x - x * cos x)" by (rule ext) simp
  have e2: "sbj (Suc (Suc 0)) = (\<lambda>x. 3 * (sin x - x * cos x) - x * x * sin x)"
    by (rule ext) simp
  have 1: "DERIV (sbj (Suc 0)) x :> x * sbj 0 x"
    unfolding e1 by (auto intro!: derivative_eq_intros)
  have 2: "DERIV (sbj (Suc (Suc 0))) x :> x * sbj (Suc 0) x"
    unfolding e2 by (auto intro!: derivative_eq_intros simp: algebra_simps)
  from 1 2 show ?case by (intro conjI)
next
  case (Suc m)
  from Suc have d1: "DERIV (sbj (Suc m)) x :> x * sbj m x" by (rule conjunct1)
  from Suc have d2: "DERIV (sbj (Suc (Suc m))) x :> x * sbj (Suc m) x" by (rule conjunct2)
  have e: "sbj (Suc (Suc (Suc m))) =
      (\<lambda>x. (2 * real (Suc m) + 3) * sbj (Suc (Suc m)) x - x * x * sbj (Suc m) x)"
    by (rule ext) simp
  have "DERIV (sbj (Suc (Suc (Suc m)))) x :>
      (2 * real (Suc m) + 3) * (x * sbj (Suc m) x) - ((1 * x + 1 * x) * sbj (Suc m) x + (x * sbj m x) * (x * x))"
    unfolding e
    by (intro DERIV_diff DERIV_mult DERIV_cmult d1 d2 DERIV_ident)
  moreover have "(2 * real (Suc m) + 3) * (x * sbj (Suc m) x) -
      ((1 * x + 1 * x) * sbj (Suc m) x + (x * sbj m x) * (x * x)) = x * sbj (Suc (Suc m)) x"
    by (simp add: algebra_simps)
  ultimately have "DERIV (sbj (Suc (Suc (Suc m)))) x :> x * sbj (Suc (Suc m)) x"
    by (simp only:)
  with d2 show ?case by (intro conjI)
qed

lemma sbj_deriv: "DERIV (sbj (Suc m)) x :> x * sbj m x"
  using sbj_deriv2 by blast

lemma sbj_increasing:
  assumes "0 < x" and "\<And>u. 0 < u \<Longrightarrow> u < x \<Longrightarrow> 0 < sbj m u"
  shows "0 < sbj (Suc m) x"
proof -
  have "sbj (Suc m) 0 < sbj (Suc m) x"
  proof (rule DERIV_pos_imp_increasing_open [OF assms(1)])
    fix u :: real assume "0 < u" "u < x"
    then have "0 < u * sbj m u" using assms(2) by simp
    then show "\<exists>y. DERIV (sbj (Suc m)) u :> y \<and> 0 < y" using sbj_deriv by blast
  next
    show "continuous_on {0..x} (sbj (Suc m))"
      by (rule DERIV_atLeastAtMost_imp_continuous_on) (use sbj_deriv in blast)
  qed
  then show ?thesis by (simp add: sbj_zero)
qed

lemma sbj_pos_open: "0 < x \<Longrightarrow> x < pi \<Longrightarrow> 0 < sbj m x"
proof (induction m arbitrary: x)
  case 0
  then show ?case by (simp add: sin_gt_zero)
next
  case (Suc m)
  show ?case
  proof (rule sbj_increasing [OF Suc.prems(1)])
    fix u :: real assume "0 < u" "u < x"
    with Suc.prems(2) show "0 < sbj m u" by (intro Suc.IH) simp_all
  qed
qed

lemma sbj_pos_pi: "0 < sbj (Suc m) pi"
  by (rule sbj_increasing) (simp_all add: sbj_pos_open)

lemma sbj_le: "0 \<le> x \<Longrightarrow> x \<le> pi \<Longrightarrow> sbj m x \<le> x ^ (2 * m + 1) / dfact m"
proof (induction m arbitrary: x)
  case 0
  then show ?case by (simp add: sin_x_le_x)
next
  case (Suc m)
  define h where "h u = u ^ (2 * Suc m + 1) / dfact (Suc m) - sbj (Suc m) u" for u
  have "h 0 \<le> h x"
  proof (rule DERIV_nonneg_imp_nondecreasing [OF Suc.prems(1)])
    fix u :: real assume u: "0 \<le> u" "u \<le> x"
    then have "sbj m u \<le> u ^ (2 * m + 1) / dfact m" using Suc.prems(2) by (intro Suc.IH) simp_all
    then have nn: "0 \<le> u * (u ^ (2 * m + 1) / dfact m - sbj m u)" using u(1) by simp
    have "DERIV h u :> (real (2 * Suc m + 1) * u ^ (2 * Suc m + 1 - Suc 0)) / dfact (Suc m) - u * sbj m u"
      unfolding h_def
      by (intro DERIV_diff DERIV_cdivide DERIV_pow sbj_deriv)
    moreover have "(real (2 * Suc m + 1) * u ^ (2 * Suc m + 1 - Suc 0)) / dfact (Suc m) - u * sbj m u
        = u * (u ^ (2 * m + 1) / dfact m - sbj m u)"
    proof -
      define c where "c = 2 * real m + 3"
      have c: "0 < c" by (simp add: c_def)
      have "real (2 * Suc m + 1) * u ^ (2 * Suc m + 1 - Suc 0) = c * (u * u ^ (2 * m + 1))"
        by (simp add: c_def)
      moreover have "dfact (Suc m) = c * dfact m" by (simp add: c_def)
      ultimately have "(real (2 * Suc m + 1) * u ^ (2 * Suc m + 1 - Suc 0)) / dfact (Suc m)
          = (c * (u * u ^ (2 * m + 1))) / (c * dfact m)" by (simp only:)
      also have "\<dots> = u * (u ^ (2 * m + 1) / dfact m)" using c by simp
      finally show ?thesis by (simp only: right_diff_distrib)
    qed
    ultimately have "DERIV h u :> u * (u ^ (2 * m + 1) / dfact m - sbj m u)" by (simp only:)
    with nn show "\<exists>y. DERIV h u :> y \<and> 0 \<le> y" by blast
  qed
  then show ?case by (simp add: h_def sbj_zero)
qed


lemma pi_sq_less: "pi * pi < 16"
proof -
  have "pi * pi < 4 * 4" by (intro mult_strict_mono pi_less_4) simp_all
  then show ?thesis by simp
qed

lemma sbn_growth: "0 < sbn (Suc (Suc (Suc m))) \<and> 3 * sbn (Suc (Suc (Suc m))) \<le> sbn (Suc (Suc (Suc (Suc m))))"
proof (induction m)
  case 0
  have "sbn (Suc (Suc (Suc 0))) = 5" by simp
  moreover have "sbn (Suc (Suc (Suc (Suc 0)))) = 35 - pi * pi" by simp
  ultimately show ?case using pi_sq_less by simp
next
  case (Suc m)
  define a where "a = sbn (Suc (Suc (Suc m)))"
  define b where "b = sbn (Suc (Suc (Suc (Suc m))))"
  from Suc have a: "0 < a" and ab: "3 * a \<le> b" by (simp_all add: a_def b_def)
  have b: "0 < b" using a ab by linarith
  have e: "sbn (Suc (Suc (Suc (Suc (Suc m))))) = (2 * real m + 9) * b - pi * pi * a"
    by (simp add: a_def b_def algebra_simps)
  have "pi * pi * a \<le> 16 * a" using pi_sq_less a by (intro mult_right_mono) simp_all
  also have "\<dots> \<le> 6 * b" using ab a by linarith
  finally have "pi * pi * a \<le> 6 * b" .
  moreover have "9 * b \<le> (2 * real m + 9) * b" using b by (intro mult_right_mono) simp_all
  ultimately have "3 * b \<le> (2 * real m + 9) * b - pi * pi * a" by linarith
  with b show ?case unfolding e b_def [symmetric] by simp
qed

lemma sbn_pos: "0 < sbn (Suc (Suc m))"
  by (cases m) (use sbn_growth in auto)

lemma sbn_nonneg: "0 \<le> sbn (Suc m)"
  by (cases m) (use sbn_pos less_imp_le in auto)

lemma sbn_le: "sbn (Suc (Suc m)) \<le> dfact (Suc m) / 3"
proof (induction m)
  case 0
  show ?case by simp
next
  case (Suc m)
  have "sbn (Suc (Suc (Suc m))) = (2 * real m + 5) * sbn (Suc (Suc m)) - pi * pi * sbn (Suc m)"
    by (simp add: algebra_simps)
  moreover have "0 \<le> pi * pi * sbn (Suc m)" using sbn_nonneg [of m] by simp
  ultimately have "sbn (Suc (Suc (Suc m))) \<le> (2 * real m + 5) * sbn (Suc (Suc m))" by linarith
  also have "\<dots> \<le> (2 * real m + 5) * (dfact (Suc m) / 3)"
    using Suc by (intro mult_left_mono) simp_all
  also have "\<dots> = dfact (Suc (Suc m)) / 3" by (simp add: algebra_simps)
  finally show ?case .
qed

lemma casorati: "sbj (Suc m) pi * sbn m - sbj m pi * sbn (Suc m) = - (pi ^ (2 * m) / pi)"
proof (induction m)
  case 0
  show ?case by (simp add: field_simps)
next
  case (Suc m)
  have "sbj (Suc (Suc m)) pi * sbn (Suc m) - sbj (Suc m) pi * sbn (Suc (Suc m)) =
      pi * pi * (sbj (Suc m) pi * sbn m - sbj m pi * sbn (Suc m))"
    by (simp add: algebra_simps)
  also have "\<dots> = pi * pi * (- (pi ^ (2 * m) / pi))" by (simp only: Suc)
  also have "\<dots> = - (pi ^ (2 * Suc m) / pi)" by simp
  finally show ?case .
qed

lemma sb_ratio_bounds: "0 < sb_ratio k \<and> sb_ratio k \<le> 13 / 16"
proof -
  define q2 where "q2 = sbj (k + 2) pi"
  define q3 where "q3 = sbj (k + 3) pi"
  define p2 where "p2 = sbn (k + 2)"
  define p3 where "p3 = sbn (k + 3)"
  have q2: "0 < q2" using sbj_pos_pi [of "Suc k"] by (simp add: q2_def)
  have q3: "0 < q3" using sbj_pos_pi [of "Suc (Suc k)"] by (simp add: q3_def eval_nat_numeral)
  have p2: "0 < p2" using sbn_pos [of k] by (simp add: p2_def)
  have p3: "0 < p3" using sbn_pos [of "Suc k"] by (simp add: p3_def eval_nat_numeral)
  have w: "q3 * p2 - q2 * p3 = - (pi ^ (2 * (k + 2)) / pi)"
    using casorati [of "k + 2"] by (simp add: q2_def q3_def p2_def p3_def eval_nat_numeral)
  define d where "d = dfact (k + 2)"
  have dpos: "0 < d" unfolding d_def by (rule dfact_pos)
  have "q2 \<le> pi ^ (2 * (k + 2) + 1) / d"
    unfolding q2_def d_def by (rule sbj_le) simp_all
  moreover have "p3 \<le> d / 3"
    using sbn_le [of "Suc k"] by (simp add: p3_def d_def eval_nat_numeral)
  ultimately have "q2 * p3 \<le> (pi ^ (2 * (k + 2) + 1) / d) * (d / 3)"
    using q2 p3 by (intro mult_mono) simp_all
  also have "\<dots> = pi ^ (2 * (k + 2) + 1) / 3" using dpos by simp
  finally have prod: "q2 * p3 \<le> pi ^ (2 * (k + 2) + 1) / 3" .
  define P where "P = pi ^ (2 * (k + 2)) / pi"
  have P: "0 < P" by (simp add: P_def)
  have "pi ^ (2 * (k + 2) + 1) = pi * pi * P" by (simp add: P_def)
  also have "\<dots> \<le> 16 * P" using pi_sq_less P by (intro mult_right_mono) simp_all
  finally have "q2 * p3 \<le> 16 * P / 3" using prod by linarith
  then have gap: "3 * (q2 * p3) \<le> 16 * P" by simp
  have qp: "0 < q2 * p3" using q2 p3 by simp
  have r: "sb_ratio k = (q3 * p2) / (q2 * p3)"
    by (simp add: sb_ratio_def q2_def q3_def p2_def p3_def)
  have "0 < sb_ratio k" unfolding r using q2 q3 p2 p3 by simp
  moreover have "sb_ratio k \<le> 13 / 16"
  proof -
    have "q3 * p2 = q2 * p3 - P" using w by (simp add: P_def)
    then have "16 * (q3 * p2) \<le> 13 * (q2 * p3)" using gap by linarith
    then show ?thesis unfolding r using qp by (simp add: field_simps)
  qed
  ultimately show ?thesis by simp
qed


lemma pi_step:
  assumes "s = 1 \<or> s = - 1" and "0 < x2" and "0 < x3"
    and "x4 = (2 * real k + 7) * x3 - pi * pi * x2"
  shows "1 / (- s * (x3 / (pi * x2))) + s * ((2 * real k + 7) / pi) = s * (x4 / (pi * x3))"
proof -
  define c where "c = 2 * real k + 7"
  have "1 / (- s * (x3 / (pi * x2))) + s * (c / pi) = s * ((c * x3 - pi * pi * x2) / (pi * x3))"
    using assms(1,2,3) by (auto simp: field_simps)
  then show ?thesis unfolding assms(4) c_def .
qed

lemma of_real_recip_add: "1 / complex_of_real x + of_real a = of_real (1 / x + a)"
  by simp

lemma of_real_add_recip: "complex_of_real a + 1 / of_real x = of_real (a + 1 / x)"
  by simp

lemma Lentz_at_pi_body:
  assumes "Lentz_at_pi k s v"
  shows "\<exists>v'. Lentz_body v = Inr v' \<and> Lentz_at_pi (Suc k) (- s) v' \<and> Lentz_continue v'"
proof -
  define q2 where "q2 = sbj (k + 2) pi"
  define q3 where "q3 = sbj (k + 3) pi"
  define q4 where "q4 = sbj (k + 4) pi"
  define p2 where "p2 = sbn (k + 2)"
  define p3 where "p3 = sbn (k + 3)"
  define p4 where "p4 = sbn (k + 4)"
  have q2: "0 < q2" using sbj_pos_pi [of "Suc k"] by (simp add: q2_def)
  have q3: "0 < q3" using sbj_pos_pi [of "Suc (Suc k)"] by (simp add: q3_def eval_nat_numeral)
  have q4: "0 < q4" using sbj_pos_pi [of "Suc (Suc (Suc k))"] by (simp add: q4_def eval_nat_numeral)
  have p2: "0 < p2" using sbn_pos [of k] by (simp add: p2_def)
  have p3: "0 < p3" using sbn_pos [of "Suc k"] by (simp add: p3_def eval_nat_numeral)
  have p4: "0 < p4" using sbn_pos [of "Suc (Suc k)"] by (simp add: p4_def eval_nat_numeral)
  have rq: "q4 = (2 * real k + 7) * q3 - pi * pi * q2"
    by (simp add: q4_def q3_def q2_def eval_nat_numeral algebra_simps)
  have rp: "p4 = (2 * real k + 7) * p3 - pi * pi * p2"
    by (simp add: p4_def p3_def p2_def eval_nat_numeral algebra_simps)
  from assms have s: "s = 1 \<or> s = - 1"
    and zv: "zinv v = of_real (s * (2 / pi))"
    and av: "aj v = of_real (- s * ((2 * real k + 5) / pi))"
    and a1v: "alpha_j1 v = of_real (- s * (q3 / (pi * q2)))"
    and a2v: "alpha_j2 v = of_real (- s * (p3 / (pi * p2)))"
    by (simp_all add: Lentz_at_pi_def q2_def q3_def p2_def p3_def)
  define ar where "ar = s * ((2 * real k + 7) / pi)"
  define y1 where "y1 = s * (q4 / (pi * q3))"
  define y2 where "y2 = s * (p4 / (pi * p3))"
  have a: "zinv v - aj v = of_real ar"
    unfolding zv av ar_def of_real_diff [symmetric] by (simp add: field_simps)
  have x1: "- s * (q3 / (pi * q2)) \<noteq> 0" using s q2 q3 by auto
  have x2: "- s * (p3 / (pi * p2)) \<noteq> 0" using s p2 p3 by auto
  have y2n: "y2 \<noteq> 0" using s p3 p4 by (auto simp: y2_def)
  have i1: "1 / alpha_j1 v + of_real ar = of_real y1"
    unfolding a1v of_real_recip_add by (simp only: ar_def y1_def pi_step [OF s q2 q3 rq])
  have i2: "1 / alpha_j2 v + of_real ar = of_real y2"
    unfolding a2v of_real_recip_add by (simp only: ar_def y2_def pi_step [OF s p2 p3 rp])
  define v' where "v' = \<lparr>aj = complex_of_real ar, alpha_j1 = of_real y1, alpha_j2 = of_real y2,
      zinv = - zinv v, ratio = of_real y1 / of_real y2,
      runratio = runratio v * (of_real y1 / of_real y2)\<rparr>"
  have n1: "alpha_j1 v \<noteq> 0" unfolding a1v using x1 by (simp only: of_real_eq_0_iff) simp
  have n2: "alpha_j2 v \<noteq> 0" unfolding a2v using x2 by (simp only: of_real_eq_0_iff) simp
  have body: "Lentz_body v = Inr v'"
    using n1 n2 y2n
    by (simp add: Lentz_body_def cdiv_def Let_def a i1 i2 v'_def)
  have idx: "Suc k + 3 = k + 4" "Suc k + 2 = k + 3" by simp_all
  have inv: "Lentz_at_pi (Suc k) (- s) v'"
    unfolding Lentz_at_pi_def
  proof (intro conjI)
    show "- s = 1 \<or> - s = - 1" using s by auto
    show "zinv v' = of_real (- s * (2 / pi))" by (simp add: v'_def zv)
    show "aj v' = of_real (- (- s) * ((2 * real (Suc k) + 5) / pi))"
      by (simp add: v'_def ar_def)
    show "alpha_j1 v' = of_real (- (- s) * (sbj (Suc k + 3) pi / (pi * sbj (Suc k + 2) pi)))"
      unfolding idx by (simp add: v'_def y1_def q4_def q3_def)
    show "alpha_j2 v' = of_real (- (- s) * (sbn (Suc k + 3) / (pi * sbn (Suc k + 2))))"
      unfolding idx by (simp add: v'_def y2_def p4_def p3_def)
  qed
  have "sb_ratio (Suc k) = (q4 * p3) / (q3 * p4)"
    by (simp only: sb_ratio_def idx q4_def q3_def p4_def p3_def)
  moreover have "y1 / y2 = (q4 * p3) / (q3 * p4)"
    using s q3 p3 p4 by (auto simp: y1_def y2_def field_simps)
  ultimately have "y1 / y2 = sb_ratio (Suc k)" by simp
  then have "ratio v' = of_real (sb_ratio (Suc k))"
    by (simp add: v'_def flip: of_real_divide)
  then have "cmod (ratio v') = sb_ratio (Suc k)"
    using sb_ratio_bounds [of "Suc k"] by simp
  then have "Lentz_continue v'"
    using sb_ratio_bounds [of "Suc k"] by (simp add: Lentz_continue_def)
  with body inv show ?thesis by blast
qed

lemma Lentz_at_pi_turns: "Lentz_at_pi k s v \<Longrightarrow> Lentz_turns j v = None"
proof (induction j arbitrary: k s v)
  case 0
  from Lentz_at_pi_body [OF 0] show ?case by auto
next
  case (Suc j)
  from Lentz_at_pi_body [OF Suc.prems] obtain v' where b: "Lentz_body v = Inr v'"
    and i: "Lentz_at_pi (Suc k) (- s) v'" and c: "Lentz_continue v'" by blast
  from Suc.IH [OF i] b c show ?case by simp
qed

lemma Lentz_init_pi:
  "\<exists>v. Lentz_init (complex_of_real pi) 1 = Inr v \<and> Lentz_at_pi 0 1 v"
proof -
  have q2: "sbj (0 + 2) pi = 3 * pi" by (simp add: eval_nat_numeral)
  have q3: "sbj (0 + 3) pi = 15 * pi - pi * pi * pi" by (simp add: eval_nat_numeral algebra_simps)
  have p2: "sbn (0 + 2) = 1" by (simp add: eval_nat_numeral)
  have p3: "sbn (0 + 3) = 5" by (simp add: eval_nat_numeral)
  define zi where "zi = complex_of_real (2 / pi)"
  define alpha where "alpha = complex_of_real (3 / pi)"
  define a where "a = complex_of_real (- (5 / pi))"
  define v where "v = \<lparr>aj = a, alpha_j1 = a + 1 / alpha, alpha_j2 = a, zinv = zi,
     ratio = (a + 1 / alpha) / a, runratio = alpha * ((a + 1 / alpha) / a)\<rparr>"
  have 1: "cdiv 2 (complex_of_real pi) = Inr zi" by (simp add: cdiv_def zi_def)
  have al: "(of_int 1 + 1 / 2) * zi = alpha" by (simp add: zi_def alpha_def)
  have aa: "(- of_int 1 - 3 / 2) * zi = a" by (simp add: zi_def a_def)
  have 2: "cdiv 1 alpha = Inr (1 / alpha)" by (simp add: cdiv_def alpha_def)
  have 3: "cdiv (a + 1 / alpha) a = Inr ((a + 1 / alpha) / a)" by (simp add: cdiv_def a_def)
  have init: "Lentz_init (complex_of_real pi) 1 = Inr v"
    by (simp only: Lentz_init_def 1 seq_Inr Let_def al aa 2 3 v_def)
  have "- (5 / pi) + 1 / (3 / pi) = - 1 * ((15 * pi - pi * pi * pi) / (pi * (3 * pi)))"
    by (simp add: field_simps)
  then have "a + 1 / alpha = complex_of_real (- 1 * ((15 * pi - pi * pi * pi) / (pi * (3 * pi))))"
    unfolding a_def alpha_def of_real_add_recip by (simp only:)
  then have "Lentz_at_pi 0 1 v"
    unfolding Lentz_at_pi_def q2 q3 p2 p3 by (simp add: v_def zi_def a_def)
  with init show ?thesis by blast
qed

lemma Lentz_never_leaves:
  "Lentz_run (complex_of_real pi) 1 = None \<and> Lentz_Dn (complex_of_real pi) 1 = None"
proof -
  obtain v where i: "Lentz_init (complex_of_real pi) 1 = Inr v" and inv: "Lentz_at_pi 0 1 v"
    using Lentz_init_pi by blast
  have "Lentz_loop v = None"
  proof (rule ccontr)
    assume "Lentz_loop v \<noteq> None"
    then obtain r where "Lentz_loop v = Some r" by auto
    then obtain j where "Lentz_turns j v = Some r" using Lentz_loop_turns by blast
    with Lentz_at_pi_turns [OF inv, of j] show False by simp
  qed
  with i show ?thesis by (simp add: Lentz_run_def Lentz_Dn_def)
qed

subsection \<open>The checks of Mie\<close>

lemma no_raise_not_Raised: "no_raise r \<noteq> Inl (Raised e)"
  by (cases r) (simp_all add: no_raise_def)

lemma map_no_raise_not_Raised: "map_option no_raise r \<noteq> Some (Inl (Raised e))"
  by (cases r) (simp_all add: no_raise_not_Raised)

lemma InvalidInput_not_Unvalidated: "InvalidInput \<noteq> Unvalidated"
  by (simp add: InvalidInput_def Unvalidated_def)

text \<open>
  C6. \<^verbatim>\<open>Mie\<close> fails with \<open>InvalidInput\<close> exactly when \<open>x \<le> 0\<close> and with \<open>Unvalidated\<close>
  exactly when \<open>x > 20000\<close>; for \<open>0 < x \<le> 20000\<close> it raises neither and computes, through
  \<^verbatim>\<open>small_Mie\<close> where the small particle test holds and through its main part elsewhere.
\<close>

theorem Mie_checks:
  "(Mie NANGLES x mx mu smatrix = Some (Inl (Raised InvalidInput)) \<longleftrightarrow> x \<le> 0) \<and>
   (Mie NANGLES x mx mu smatrix = Some (Inl (Raised Unvalidated)) \<longleftrightarrow> 20000 < x) \<and>
   (0 < x \<and> x \<le> 20000 \<longrightarrow>
      Mie NANGLES x mx mu smatrix =
        (if (mx = 0 \<and> x < 0.1) \<or> (0 < mx \<and> \<bar>mx\<bar> * x < 0.1)
         then Some (no_raise (small_Mie NANGLES x mx mu smatrix))
         else map_option no_raise (Mie_main NANGLES x mx mu smatrix)))"
proof (intro conjI)
  show "Mie NANGLES x mx mu smatrix = Some (Inl (Raised InvalidInput)) \<longleftrightarrow> x \<le> 0"
    by (simp add: Mie_def Let_def no_raise_not_Raised map_no_raise_not_Raised
        InvalidInput_not_Unvalidated [symmetric])
  show "Mie NANGLES x mx mu smatrix = Some (Inl (Raised Unvalidated)) \<longleftrightarrow> 20000 < x"
    by (simp add: Mie_def Let_def no_raise_not_Raised map_no_raise_not_Raised
        InvalidInput_not_Unvalidated)
  show "0 < x \<and> x \<le> 20000 \<longrightarrow>
      Mie NANGLES x mx mu smatrix =
        (if (mx = 0 \<and> x < 0.1) \<or> (0 < mx \<and> \<bar>mx\<bar> * x < 0.1)
         then Some (no_raise (small_Mie NANGLES x mx mu smatrix))
         else map_option no_raise (Mie_main NANGLES x mx mu smatrix))"
    by (simp add: Mie_def Let_def cmod_Complex_real)
qed

theorem Mie_checks_witness:
  "Mie 1 0 (3 / 2) [1] [float4 0 0 0 0] = Some (Inl (Raised InvalidInput)) \<and>
   Mie 1 20001 (3 / 2) [1] [float4 0 0 0 0] = Some (Inl (Raised Unvalidated)) \<and>
   Mie 1 (1 / 20) (3 / 2) [1] [float4 0 0 0 0] \<noteq> Some (Inl (Raised InvalidInput)) \<and>
   Mie 1 (1 / 20) (3 / 2) [1] [float4 0 0 0 0] \<noteq> Some (Inl (Raised Unvalidated)) \<and>
   Mie 1 (1 / 20) (3 / 2) [1] [float4 0 0 0 0] =
     Some (no_raise (small_Mie 1 (1 / 20) (3 / 2) [1] [float4 0 0 0 0]))"
  using Mie_checks [of 1 0 "3 / 2" "[1]" "[float4 0 0 0 0]"]
    Mie_checks [of 1 20001 "3 / 2" "[1]" "[float4 0 0 0 0]"]
    Mie_checks [of 1 "1 / 20" "3 / 2" "[1]" "[float4 0 0 0 0]"]
  by (simp add: no_raise_not_Raised)

subsection \<open>The loops over the angles\<close>

lemma for_loop_invariant:
  assumes "for_loop js body s0 = Inr s"
    and "I s0"
    and "\<And>i t t'. i \<in> set js \<Longrightarrow> I t \<Longrightarrow> body i t = Inr t' \<Longrightarrow> I t'"
  shows "I s"
  using assms
proof (induction js arbitrary: s0)
  case Nil
  then show ?case by simp
next
  case (Cons j js)
  from Cons.prems(1) obtain t where t: "body j s0 = Inr t" and r: "for_loop js body t = Inr s"
    by (auto split: sum.splits)
  have "I t" using Cons.prems(2) t Cons.prems(3) [of j s0 t] by simp
  with r show ?case
  proof (rule Cons.IH)
    fix i u u' assume "i \<in> set js" "I u" "body i u = Inr u'"
    then show "I u'" using Cons.prems(3) [of i u u'] by simp
  qed
qed

lemma MiePoly_add_length:
  "MiePoly_add prob tot smatrix i w = Inr w' \<Longrightarrow> length (a11 w') = length (a11 w)"
  by (auto simp: MiePoly_add_def seq_Inr_iff wr_Inr_iff)

lemma MiePoly_add_beyond:
  "length (a11 w) \<le> i \<Longrightarrow> MiePoly_add prob tot smatrix i w \<noteq> Inr w'"
  by (auto simp: MiePoly_add_def seq_Inr_iff rd_Inr_iff)

lemma MiePoly_accumulate_faults:
  assumes "length (a11 w) = NANGLES"
  shows "MiePoly_accumulate NANGLES prob tot smatrix w \<noteq> Inr w'"
proof
  assume "MiePoly_accumulate NANGLES prob tot smatrix w = Inr w'"
  then obtain t where t: "for_loop [0..<NANGLES] (MiePoly_add prob tot smatrix) w = Inr t"
    and l: "MiePoly_add prob tot smatrix NANGLES t = Inr w'"
    by (auto simp only: MiePoly_accumulate_def for_loop_upt_Suc seq_Inr_iff)
  have "length (a11 t) = NANGLES"
    using t assms
    by (rule for_loop_invariant [where I = "\<lambda>u. length (a11 u) = NANGLES"])
       (simp add: MiePoly_add_length)
  then show False using l MiePoly_add_beyond [of t NANGLES] by simp
qed

lemma Whittle_cell_length:
  "Whittle_cell NANGLES klc D i w = Inr w' \<Longrightarrow> length (a11 w') = length (a11 w) \<and> NANGLES \<noteq> 0"
  by (auto simp: Whittle_cell_def seq_Inr_iff wr_Inr_iff fdiv_def Let_def split: if_splits)

lemma Whittle_cell_beyond:
  "length (a11 w) \<le> i \<Longrightarrow> Whittle_cell NANGLES klc D i w \<noteq> Inr w'"
  by (auto simp: Whittle_cell_def seq_Inr_iff wr_Inr_iff Let_def)

lemma Whittle_spectrum_faults:
  assumes "length (a11 w) = NANGLES" "NANGLES \<noteq> 0"
  shows "Whittle_spectrum NANGLES klc D w \<noteq> Inr w'"
proof
  assume r: "Whittle_spectrum NANGLES klc D w = Inr w'"
  have "[1..<Suc NANGLES] = [1..<NANGLES] @ [NANGLES]" using assms(2) by simp
  with r obtain t where t: "for_loop [1..<NANGLES] (Whittle_cell NANGLES klc D) w = Inr t"
    and l: "Whittle_cell NANGLES klc D NANGLES t = Inr w'"
    by (auto simp only: Whittle_spectrum_def for_loop_snoc seq_Inr_iff)
  have "length (a11 t) = NANGLES"
    using t assms(1)
    by (rule for_loop_invariant [where I = "\<lambda>u. length (a11 u) = NANGLES"])
       (simp add: Whittle_cell_length)
  then show False using l Whittle_cell_beyond [of t NANGLES] by simp
qed

lemma WhittleMattern_faults: "WhittleMattern NANGLES lc D mu smatrix lambda \<noteq> Inr r"
proof
  assume "WhittleMattern NANGLES lc D mu smatrix lambda = Inr r"
  then obtain klc w1 w2 where
    c: "Whittle_cell NANGLES klc D 0 \<lparr>a11 = replicate NANGLES 0, a12 = replicate NANGLES 0,
          a33 = replicate NANGLES 0, a43 = replicate NANGLES 0\<rparr> = Inr w1"
    and s: "Whittle_spectrum NANGLES klc D w1 = Inr w2"
    by (auto simp: WhittleMattern_def Let_def seq_Inr_iff)
  from Whittle_cell_length [OF c] have "length (a11 w1) = NANGLES" "NANGLES \<noteq> 0" by simp_all
  then show False using s Whittle_spectrum_faults by blast
qed

lemma for_loop_raising_Cons_Inr:
  "for_loop_raising (i # js) body s = Some (Inr r) \<Longrightarrow> \<exists>s'. body i s = Some (Inr s')"
  by (auto split: option.splits sum.splits)

lemma MiePoly_radius_faults:
  assumes "length (a11 w) = NANGLES"
  shows "MiePoly_radius NANGLES mx mu nmed lambda radii weights tot ir (out, w) \<noteq> Some (Inr r)"
  using MiePoly_accumulate_faults [OF assms]
  by (auto simp: MiePoly_radius_def no_raise_Inr_iff seq_Inr_iff split: sum.splits option.splits)

lemma MiePoly_faults:
  "MiePoly NANGLES mx mu smatrix qsca g mean_radius CV nmed lambda \<noteq> Some (Inr out)"
proof
  assume r: "MiePoly NANGLES mx mu smatrix qsca g mean_radius CV nmed lambda = Some (Inr out)"
  define zero where "zero = (\<lambda>(i :: nat) (w :: mueller_arrays).
      seq (wr (a11 w) (int i) (0 :: real)) (\<lambda>n11.
      seq (wr (a12 w) (int i) (0 :: real)) (\<lambda>n12.
      seq (wr (a33 w) (int i) (0 :: real)) (\<lambda>n33.
      seq (wr (a43 w) (int i) (0 :: real)) (\<lambda>n43.
      Inr \<lparr>a11 = n11, a12 = n12, a33 = n33, a43 = n43\<rparr>)))))"
  from r obtain w0 radii weights tot s where
    z: "for_loop [0..<NANGLES] zero \<lparr>a11 = replicate NANGLES 0, a12 = replicate NANGLES 0,
          a33 = replicate NANGLES 0, a43 = replicate NANGLES 0\<rparr> = Inr w0"
    and l: "for_loop_raising [0..<NRS] (MiePoly_radius NANGLES mx mu nmed lambda radii weights tot)
          (\<lparr>out_smatrix = smatrix, out_qsca = qsca, out_g = g\<rparr>, w0) = Some (Inr s)"
    unfolding MiePoly_def Let_def zero_def
    by (auto split: sum.splits option.splits prod.splits)
  have "length (a11 w0) = NANGLES"
    using z
    by (rule for_loop_invariant [where I = "\<lambda>u. length (a11 u) = NANGLES"])
       (auto simp: zero_def seq_Inr_iff wr_Inr_iff)
  moreover have "[0..<NRS] = 0 # [Suc 0..<NRS]" by (rule upt_conv_Cons) (simp add: NRS_def)
  ultimately show False
    using l for_loop_raising_Cons_Inr MiePoly_radius_faults by metis
qed

text \<open>
  C10 fails on the code. The loop of \<^verbatim>\<open>MiePoly\<close> over the angles runs to \<open>i = NANGLES\<close>
  included and reads and writes cell \<open>NANGLES\<close> of arrays of \<open>NANGLES\<close> cells: with checked
  accesses it never returns, and neither does \<^verbatim>\<open>MiePoly\<close>. The loop of \<^verbatim>\<open>WhittleMattern\<close>
  does the same, and \<^verbatim>\<open>WhittleMattern\<close> never returns.
\<close>

theorem angle_loops_leave_bounds:
  "(length (a11 w) = NANGLES \<longrightarrow>
      (\<forall>w'. MiePoly_accumulate NANGLES prob tot smatrix w \<noteq> Inr w')) \<and>
   (\<forall>out. MiePoly NANGLES mx mu smatrix qsca g mean_radius CV nmed lambda \<noteq> Some (Inr out)) \<and>
   (length (a11 w) = NANGLES \<and> NANGLES \<noteq> 0 \<longrightarrow>
      (\<forall>w'. Whittle_spectrum NANGLES klc D w \<noteq> Inr w')) \<and>
   (\<forall>r. WhittleMattern NANGLES lc D mu smatrix lambda \<noteq> Inr r)"
proof (intro conjI impI allI)
  fix w' assume "length (a11 w) = NANGLES"
  then show "MiePoly_accumulate NANGLES prob tot smatrix w \<noteq> Inr w'"
    by (rule MiePoly_accumulate_faults)
next
  fix out
  show "MiePoly NANGLES mx mu smatrix qsca g mean_radius CV nmed lambda \<noteq> Some (Inr out)"
    by (rule MiePoly_faults)
next
  fix w' assume "length (a11 w) = NANGLES \<and> NANGLES \<noteq> 0"
  then show "Whittle_spectrum NANGLES klc D w \<noteq> Inr w'"
    by (simp add: Whittle_spectrum_faults)
next
  fix r
  show "WhittleMattern NANGLES lc D mu smatrix lambda \<noteq> Inr r"
    by (rule WhittleMattern_faults)
qed

theorem angle_loops_leave_bounds_witness:
  "MiePoly_accumulate 1 1 2 [float4 1 0 0 0] \<lparr>a11 = [0], a12 = [0], a33 = [0], a43 = [0]\<rparr>
     = Inl OutOfBounds \<and>
   Whittle_spectrum 1 1 3 \<lparr>a11 = [0], a12 = [0], a33 = [0], a43 = [0]\<rparr> = Inl OutOfBounds \<and>
   WhittleMattern 1 1 3 [1] [float4 0 0 0 0] 1 = Inl OutOfBounds"
  using angle_loops_leave_bounds [of "\<lparr>a11 = [0], a12 = [0], a33 = [0], a43 = [0]\<rparr>" 1]
  by (simp add: MiePoly_accumulate_def MiePoly_add_def Whittle_spectrum_def WhittleMattern_def
      Whittle_cell_def fdiv_def rd_def wr_def Let_def TWO_PI_d_def ONE_PI_def)

subsection \<open>The anisotropy\<close>

text \<open>
  C9 fails on the code where \<open>\<mu>\<^sub>0 \<noteq> 1\<close>. For two angles with \<open>\<mu> = (1/2, -1/2)\<close> and
  \<open>S11 = (1, 1)\<close> the loop returns \<open>g = -1/2\<close>; the specification's quotient is \<open>-1/6\<close>
  with \<open>|\<mu>\<^sub>0 - 1|\<close> for the first interval of both sums, and \<open>-3/2\<close> with \<open>\<mu>\<^sub>0 - 1\<close> for
  it in both.
\<close>

theorem trapezoid_g_first_interval:
  "trapezoid_g 2 [1 / 2, - 1 / 2] \<lparr>a11 = [1, 1], a12 = [0, 0], a33 = [0, 0], a43 = [0, 0]\<rparr>
     [float4 0 0 0 0, float4 0 0 0 0]
     = Inr ([float4 1 0 0 0, float4 1 0 0 0], - 1 / 2) \<and>
   spec_anisotropy [1 / 2, - 1 / 2] [1, 1] = - 1 / 6 \<and>
   spec_anisotropy_signed [1 / 2, - 1 / 2] [1, 1] = - 3 / 2"
proof (intro conjI)
  have u: "[0..<2] = [0, Suc 0]" by (simp add: upt_rec)
  show "trapezoid_g 2 [1 / 2, - 1 / 2] \<lparr>a11 = [1, 1], a12 = [0, 0], a33 = [0, 0], a43 = [0, 0]\<rparr>
     [float4 0 0 0 0, float4 0 0 0 0]
     = Inr ([float4 1 0 0 0, float4 1 0 0 0], - 1 / 2)"
    by (simp add: trapezoid_g_def trapezoid_turn_def u rd_def wr_def fdiv_def)
  have s: "{1..<2::nat} = {1}" by auto
  show "spec_anisotropy [1 / 2, - 1 / 2] [1, 1] = - 1 / 6"
    by (simp add: spec_anisotropy_def spec_trapezoid_def s)
  show "spec_anisotropy_signed [1 / 2, - 1 / 2] [1, 1] = - 3 / 2"
    by (simp add: spec_anisotropy_signed_def spec_trapezoid_def s)
qed


lemma partial_trapezoid_Suc:
  "0 < n \<Longrightarrow> partial_trapezoid (Suc n) first mu s11 weight =
     partial_trapezoid n first mu s11 weight
       + weight (mu ! n) * ((s11 ! n + s11 ! (n - 1)) / 2) * \<bar>mu ! n - mu ! (n - 1)\<bar>"
  by (simp add: partial_trapezoid_def)

lemma partial_trapezoid_one:
  "partial_trapezoid (Suc 0) first mu s11 weight = weight (mu ! 0) * s11 ! 0 * first (mu ! 0 - 1)"
  by (simp add: partial_trapezoid_def)

lemma spec_trapezoid_partial:
  "0 < length mu \<Longrightarrow>
     spec_trapezoid first mu s11 weight = partial_trapezoid (length mu) first mu s11 weight"
  by (simp add: spec_trapezoid_def partial_trapezoid_def)

lemma trapezoid_turn_inv:
  assumes "trapezoid_inv mu w i t" "trapezoid_turn mu w i t = Inr t'"
  shows "trapezoid_inv mu w (Suc i) t'"
proof -
  obtain sm temp temp2 where t: "t = (sm, temp, temp2)" by (cases t)
  obtain sm' temp' temp2' where t': "t' = (sm', temp', temp2')" by (cases t')
  from assms(1) have old: "\<forall>k < i. k < length sm \<and> f4x (sm ! k) = a11 w ! k"
    and temp: "temp = partial_trapezoid i abs mu (a11 w) (\<lambda>m. m)"
    and temp2: "temp2 = partial_trapezoid i (\<lambda>d. d) mu (a11 w) (\<lambda>m. 1)"
    by (simp_all add: trapezoid_inv_def t)
  from assms(2) obtain e12 e33 e43 where i: "i < length sm"
    and sm': "sm' = sm[i := float4 (a11 w ! i) e12 e33 e43]"
    by (auto simp: trapezoid_turn_def t t' seq_Inr_iff rd_Inr_iff wr_Inr_iff split: if_splits)
  have cells: "\<forall>k < Suc i. k < length sm' \<and> f4x (sm' ! k) = a11 w ! k"
    using old i by (auto simp: sm' nth_list_update less_Suc_eq)
  show ?thesis
  proof (cases "i = 0")
    case True
    with assms(2) have "temp' = temp + mu ! 0 * f4x (sm' ! 0) * \<bar>mu ! 0 - 1\<bar>"
      and "temp2' = temp2 + f4x (sm' ! 0) * (mu ! 0 - 1)"
      by (auto simp: trapezoid_turn_def t t' seq_Inr_iff rd_Inr_iff wr_Inr_iff)
    with True cells temp temp2 show ?thesis
      by (simp add: trapezoid_inv_def t' partial_trapezoid_one) (simp add: partial_trapezoid_def)
  next
    case False
    with assms(2) have "temp' = temp + mu ! i * (f4x (sm' ! i) + f4x (sm' ! (i - 1)))
        * \<bar>mu ! i - mu ! (i - 1)\<bar> / 2"
      and "temp2' = temp2 + (f4x (sm' ! i) + f4x (sm' ! (i - 1))) * \<bar>mu ! i - mu ! (i - 1)\<bar> / 2"
      by (auto simp: trapezoid_turn_def t t' seq_Inr_iff rd_Inr_iff wr_Inr_iff nat_diff_distrib)
    moreover from False cells have "f4x (sm' ! i) = a11 w ! i" "f4x (sm' ! (i - 1)) = a11 w ! (i - 1)"
      by simp_all
    ultimately show ?thesis
      using False cells temp temp2
      by (simp add: trapezoid_inv_def t' partial_trapezoid_Suc)
  qed
qed

text \<open>
  What the loop computes: its first sum takes \<open>|\<mu>\<^sub>0 - 1|\<close> for the first interval (line 320)
  and its second \<open>\<mu>\<^sub>0 - 1\<close> (line 321). The two readings and the code agree where
  \<open>\<mu>\<^sub>0 = 1\<close>.
\<close>

lemma trapezoid_g_value:
  assumes "trapezoid_g NANGLES mu w smatrix = Inr (sm, g)" "length mu = NANGLES" "0 < NANGLES"
  shows "g = spec_trapezoid abs mu (a11 w) (\<lambda>m. m) / spec_trapezoid (\<lambda>d. d) mu (a11 w) (\<lambda>m. 1)"
proof -
  from assms(1) obtain temp temp2 where
    l: "for_loop [0..<NANGLES] (trapezoid_turn mu w) (smatrix, 0, 0) = Inr (sm, temp, temp2)"
    and g: "g = temp / temp2"
    by (auto simp: trapezoid_g_def seq_Inr_iff fdiv_def split: if_splits)
  have "trapezoid_inv mu w NANGLES (sm, temp, temp2)"
    using l
  proof (rule for_loop_upt_invariant [where I = "trapezoid_inv mu w"])
    show "trapezoid_inv mu w 0 (smatrix, 0, 0)"
      by (simp add: trapezoid_inv_def partial_trapezoid_def)
  next
    fix i t t' assume "trapezoid_inv mu w i t" "trapezoid_turn mu w i t = Inr t'"
    then show "trapezoid_inv mu w (Suc i) t'" by (rule trapezoid_turn_inv)
  qed
  then show ?thesis
    using assms(2,3) by (simp add: trapezoid_inv_def g spec_trapezoid_partial)
qed

lemma trapezoid_g_spec:
  assumes "trapezoid_g NANGLES mu w smatrix = Inr (sm, g)" "length mu = NANGLES" "0 < NANGLES"
    and "mu ! 0 = 1"
  shows "g = spec_anisotropy mu (a11 w)"
  using trapezoid_g_value [OF assms(1-3)] assms(4)
  by (simp add: spec_anisotropy_def spec_trapezoid_def)

end
